theory Spec2Isabelle
  imports Complex_Main
begin

section \<open>Common values\<close>

text \<open>
  A value thrown by the TypeScript code: either an \<open>Error\<close> object carrying its
  message, or some other thrown value (the handlers test \<open>err instanceof Error\<close>).
  A function that can throw (or whose promise can reject) returns \<open>js_error + 'a\<close>.
\<close>

datatype js_error = Error string | NonError

text \<open>The line feed character of the template strings.\<close>

abbreviation NL :: string where
  "NL \<equiv> [CHR 0x0A]"

text \<open>\<open>String(n)\<close> for an integral number, in decimal.\<close>

fun digits10 :: "nat \<Rightarrow> string" where
  "digits10 n =
     (if n < 10 then [''0123456789'' ! n]
      else digits10 (n div 10) @ [''0123456789'' ! (n mod 10)])"

definition String_of_int :: "int \<Rightarrow> string" where
  "String_of_int i = (if i < 0 then CHR ''-'' # digits10 (nat (- i)) else digits10 (nat i))"

definition String_of_nat :: "nat \<Rightarrow> string" where
  "String_of_nat n = digits10 n"

definition String_of_bool :: "bool \<Rightarrow> string" where
  "String_of_bool b = (if b then ''true'' else ''false'')"

text \<open>\<open>s.padStart(n, c)\<close> with a one-character filler.\<close>

definition padStart :: "nat \<Rightarrow> char \<Rightarrow> string \<Rightarrow> string" where
  "padStart n c s = replicate (n - length s) c @ s"

text \<open>
  The remainder operator \<open>%\<close> on numbers: the result takes the sign of the dividend.
  Times are exact rationals here; the source computes with IEEE doubles.
\<close>

definition js_trunc :: "rat \<Rightarrow> int" where
  "js_trunc q = (if 0 \<le> q then \<lfloor>q\<rfloor> else \<lceil>q\<rceil>)"

definition js_rem :: "rat \<Rightarrow> rat \<Rightarrow> rat" where
  "js_rem x m = x - m * of_int (js_trunc (x / m))"


section \<open>services/postprocessing.ts\<close>

subsection \<open>Subtitle export\<close>

text \<open>
  \<open>TranscriptSegment\<close>: \<open>text\<close> is mandatory, \<open>start\<close>, \<open>end\<close> and \<open>speaker\<close> are
  optional fields (\<open>None\<close> is \<open>undefined\<close>). The word list is not read by the export.
\<close>

record TranscriptSegment =
  seg_text :: string
  seg_start :: "rat option"
  seg_end :: "rat option"
  seg_speaker :: "string option"

definition formatSRTTimestamp :: "rat \<Rightarrow> string" where
  "formatSRTTimestamp seconds =
     (let hours = \<lfloor>seconds / 3600\<rfloor>;
          minutes = \<lfloor>js_rem seconds 3600 / 60\<rfloor>;
          secs = \<lfloor>js_rem seconds 60\<rfloor>;
          millis = \<lfloor>js_rem seconds 1 * 1000\<rfloor>
      in padStart 2 CHR ''0'' (String_of_int hours) @ '':'' @
         padStart 2 CHR ''0'' (String_of_int minutes) @ '':'' @
         padStart 2 CHR ''0'' (String_of_int secs) @ '','' @
         padStart 3 CHR ''0'' (String_of_int millis))"

text \<open>
  The text line of a caption: \<open>seg.speaker ? `${seg.speaker}: ${seg.text}` : seg.text\<close>;
  an empty speaker string is falsy.
\<close>

definition caption_text :: "TranscriptSegment \<Rightarrow> string" where
  "caption_text seg =
     (case seg_speaker seg of
        None \<Rightarrow> seg_text seg
      | Some sp \<Rightarrow> if sp = [] then seg_text seg else sp @ '': '' @ seg_text seg)"

text \<open>
  The \<open>for (const seg of segments)\<close> loop of \<open>exportToSRT\<close>, with its two mutable
  variables \<open>srtContent\<close> and \<open>index\<close>.
\<close>

fun exportToSRT_loop :: "TranscriptSegment list \<Rightarrow> string \<Rightarrow> nat \<Rightarrow> string" where
  "exportToSRT_loop [] srtContent index = srtContent"
| "exportToSRT_loop (seg # segments) srtContent index =
     (case seg_start seg of
        None \<Rightarrow> exportToSRT_loop segments srtContent index
      | Some st \<Rightarrow>
          (case seg_end seg of
             None \<Rightarrow> exportToSRT_loop segments srtContent index
           | Some en \<Rightarrow>
               exportToSRT_loop segments
                 (srtContent @ String_of_nat index @ NL
                    @ formatSRTTimestamp st @ '' --> '' @ formatSRTTimestamp en @ NL
                    @ caption_text seg @ NL @ NL)
                 (index + 1)))"

definition exportToSRT :: "TranscriptSegment list \<Rightarrow> string" where
  "exportToSRT segments = exportToSRT_loop segments [] 1"

text \<open>
  For stating what the export emits: the segments that carry both times, as (start, end,
  caption text), and the caption block the loop appends for one of them under a given
  id.
\<close>

definition timed_captions :: "TranscriptSegment list \<Rightarrow> (rat \<times> rat \<times> string) list" where
  "timed_captions segments =
     List.map_filter
       (\<lambda>seg. case seg_start seg of
                None \<Rightarrow> None
              | Some st \<Rightarrow>
                  (case seg_end seg of
                     None \<Rightarrow> None
                   | Some en \<Rightarrow> Some (st, en, caption_text seg)))
       segments"

definition srt_block :: "nat \<Rightarrow> rat \<times> rat \<times> string \<Rightarrow> string" where
  "srt_block index cap =
     (case cap of
        (st, en, caption) \<Rightarrow>
          String_of_nat index @ NL
            @ formatSRTTimestamp st @ '' --> '' @ formatSRTTimestamp en @ NL
            @ caption @ NL @ NL)"

subsection \<open>Chunk enhancement request\<close>

record EnhanceOptions =
  enableTimestampAlignment :: "bool option"
  enableSpeakerVerification :: "bool option"

text \<open>A form field: a file part (file name, content, MIME type) or a text part.\<close>

datatype 'b form_value = FilePart string 'b string | TextPart string

type_synonym 'b FormData = "(string \<times> 'b form_value) list"

text \<open>
  What the function does to the outside: calls of the progress callback (message, chunk,
  total) and the HTTP request (URL and body).
\<close>

datatype 'b effect =
    Progress string "nat option" "nat option"
  | Fetch string "'b FormData"

text \<open>
  What the backend request can do: \<open>fetch\<close> rejects; the response is not \<open>ok\<close> (status
  code, and the \<open>detail\<close> field of its body when that parses and has one); or the
  response is \<open>ok\<close> and reading its body gives the result or rejects.
\<close>

datatype 'r fetch_outcome =
    Fetch_rejected js_error
  | Response_not_ok nat "string option"
  | Response_ok "js_error + 'r"

definition BACKEND_URL :: "string option \<Rightarrow> string" where
  "BACKEND_URL env =
     (case env of
        None \<Rightarrow> ''http://localhost:8000''
      | Some u \<Rightarrow> if u = [] then ''http://localhost:8000'' else u)"

text \<open>\<open>onProgress?.(...)\<close>: the callback is optional.\<close>

definition onProgress :: "bool \<Rightarrow> string \<Rightarrow> nat option \<Rightarrow> nat option \<Rightarrow> 'b effect list" where
  "onProgress given m chunk tot = (if given then [Progress m chunk tot] else [])"

definition chunk_parts :: "'b list \<Rightarrow> 'b FormData" where
  "chunk_parts audioChunks =
     map (\<lambda>(idx, chunk).
            (''audio_chunks'', FilePart (''chunk_'' @ String_of_nat idx @ ''.wav'') chunk ''audio/wav''))
         (zip [0..<length audioChunks] audioChunks)"

definition enhanceChunks_formData ::
  "'b list \<Rightarrow> string list \<Rightarrow> EnhanceOptions \<Rightarrow> 'b FormData" where
  "enhanceChunks_formData audioChunks geminiTranscripts options =
     chunk_parts audioChunks
     @ map (\<lambda>transcript. (''gemini_transcripts'', TextPart transcript)) geminiTranscripts
     @ [(''enable_timestamp_alignment'',
           TextPart (String_of_bool (case enableTimestampAlignment options of
                                       None \<Rightarrow> True | Some b \<Rightarrow> b))),
        (''enable_speaker_verification'',
           TextPart (String_of_bool (case enableSpeakerVerification options of
                                       None \<Rightarrow> True | Some b \<Rightarrow> b)))]"

text \<open>The \<open>catch\<close> block around the request: every failure is rethrown under a prefix.\<close>

definition chunk_rethrow :: "js_error \<Rightarrow> js_error" where
  "chunk_rethrow e =
     (case e of
        Error m \<Rightarrow> Error (''Chunk processing failed: '' @ m)
      | NonError \<Rightarrow> Error ''Chunk processing failed: Unknown error'')"

text \<open>
  \<open>enhanceChunks\<close>: the result (or the thrown error) and the effects in the order they
  happen. \<open>backend\<close> stands for the server: it maps the request to what \<open>fetch\<close> does.
\<close>

definition enhanceChunks ::
  "string option \<Rightarrow> (string \<Rightarrow> 'b FormData \<Rightarrow> 'r fetch_outcome) \<Rightarrow> bool
     \<Rightarrow> 'b list \<Rightarrow> string list \<Rightarrow> EnhanceOptions
     \<Rightarrow> (js_error + 'r) \<times> 'b effect list" where
  "enhanceChunks env backend cb audioChunks geminiTranscripts options =
     (if length audioChunks \<noteq> length geminiTranscripts
      then (Inl (Error ''Number of audio chunks must match number of transcripts''), [])
      else
        let n = length audioChunks;
            e1 = onProgress cb (''Uploading '' @ String_of_nat n @ '' audio chunks...'')
                   (Some 0) (Some n);
            formData = enhanceChunks_formData audioChunks geminiTranscripts options;
            e2 = onProgress cb ''Processing chunks with global speaker mapping...'' None None;
            url = BACKEND_URL env @ ''/enhance-chunks'';
            e3 = [Fetch url formData]
        in case backend url formData of
             Fetch_rejected e \<Rightarrow> (Inl (chunk_rethrow e), e1 @ e2 @ e3)
           | Response_not_ok st detail \<Rightarrow>
               (Inl (chunk_rethrow
                       (Error (case detail of
                                 None \<Rightarrow> ''Server error: '' @ String_of_nat st
                               | Some d \<Rightarrow> if d = [] then ''Server error: '' @ String_of_nat st
                                           else d))),
                e1 @ e2 @ e3)
           | Response_ok (Inl e) \<Rightarrow> (Inl (chunk_rethrow e), e1 @ e2 @ e3)
           | Response_ok (Inr result) \<Rightarrow>
               (Inr result,
                e1 @ e2 @ e3
                  @ onProgress cb ''All chunks processed and merged successfully!'' None None))"

definition is_Fetch :: "'b effect \<Rightarrow> bool" where
  "is_Fetch e = (case e of Fetch u f \<Rightarrow> True | Progress m c t \<Rightarrow> False)"


section \<open>utils/audioSlicer.ts\<close>

text \<open>
  An \<open>AudioBuffer\<close>: sample rate, channel count, length in sample frames, and the data
  of each channel (\<open>getChannelData(j)\<close> is \<open>channelData b ! j\<close>). Numbers that need not
  be whole (sample rate, chunk duration, positions computed from them) are exact
  rationals where the source computes with doubles.
\<close>

record 'a AudioBuffer =
  sampleRate :: rat
  numberOfChannels :: nat
  buf_length :: nat
  channelData :: "'a list list"

definition duration :: "'a AudioBuffer \<Rightarrow> rat" where
  "duration b = of_nat (buf_length b) / sampleRate b"

text \<open>
  What every buffer of the audio API satisfies: one data array per channel, each of the
  buffer's length.
\<close>

definition well_formed :: "'a AudioBuffer \<Rightarrow> bool" where
  "well_formed b =
     (length (channelData b) = numberOfChannels b
      \<and> list_all (\<lambda>ch. length ch = buf_length b) (channelData b))"

text \<open>
  \<open>createBuffer(numberOfChannels, length, sampleRate)\<close>: the length is converted to an
  unsigned integer, which drops its fractional part, and a length of zero is refused
  with a NotSupportedError; the new buffer is filled with zeros. (Lengths stay below
  \<open>2^32\<close>, and the channel count and sample rate are those of a decoded buffer, so
  the other refusals of the call do not arise.)
\<close>

definition createBuffer :: "nat \<Rightarrow> rat \<Rightarrow> rat \<Rightarrow> js_error + 'a::zero AudioBuffer" where
  "createBuffer channels len rate =
     (let n = nat (js_trunc len)
      in if n = 0
         then Inl (Error ''NotSupportedError: the number of frames must be at least 1'')
         else Inr \<lparr>sampleRate = rate, numberOfChannels = channels, buf_length = n,
                   channelData = replicate channels (replicate n 0)\<rparr>)"

text \<open>
  \<open>a.subarray(start, end)\<close>: each bound is truncated to an integer, counted from the
  end of the array when negative, and clamped to the array. \<open>samples_between\<close> is the
  part of an array between two positions.
\<close>

definition samples_between :: "'a list \<Rightarrow> nat \<Rightarrow> nat \<Rightarrow> 'a list" where
  "samples_between a b e = take (e - b) (drop b a)"

definition to_index :: "rat \<Rightarrow> nat \<Rightarrow> nat" where
  "to_index x len =
     (let rel = js_trunc x
      in if rel < 0 then nat (max (int len + rel) 0) else min (nat rel) len)"

definition subarray :: "'a list \<Rightarrow> rat \<Rightarrow> rat \<Rightarrow> 'a list" where
  "subarray a start endpos =
     samples_between a (to_index start (length a)) (to_index endpos (length a))"

text \<open>
  \<open>target.set(src)\<close> overwrites the front of \<open>target\<close> and throws a RangeError when
  \<open>src\<close> is the longer one.
\<close>

definition typed_set :: "'a list \<Rightarrow> 'a list \<Rightarrow> js_error + 'a list" where
  "typed_set target src =
     (if length target < length src then Inl (Error ''RangeError: offset is out of bounds'')
      else Inr (src @ drop (length src) target))"

text \<open>
  The inner \<open>for (let j = 0; j < numberOfChannels; j++)\<close> loop: channel \<open>j\<close> of the
  chunk buffer receives \<open>channelData.subarray(start, end)\<close>.
\<close>

fun copy_channels ::
  "'a AudioBuffer \<Rightarrow> 'a AudioBuffer \<Rightarrow> rat \<Rightarrow> rat \<Rightarrow> nat list \<Rightarrow> js_error + 'a list list" where
  "copy_channels originalBuffer chunkBuffer start endpos [] = Inr []"
| "copy_channels originalBuffer chunkBuffer start endpos (j # js) =
     (case typed_set (channelData chunkBuffer ! j)
                     (subarray (channelData originalBuffer ! j) start endpos) of
        Inl e \<Rightarrow> Inl e
      | Inr chunkChannelData \<Rightarrow>
          (case copy_channels originalBuffer chunkBuffer start endpos js of
             Inl e \<Rightarrow> Inl e
           | Inr rest \<Rightarrow> Inr (chunkChannelData # rest)))"

text \<open>One chunk: the buffer is created, then filled channel by channel.\<close>

definition make_chunk ::
  "'a::zero AudioBuffer \<Rightarrow> rat \<Rightarrow> rat \<Rightarrow> rat \<Rightarrow> js_error + 'a AudioBuffer" where
  "make_chunk originalBuffer start endpos chunkBufferLength =
     (case createBuffer (numberOfChannels originalBuffer) chunkBufferLength
             (sampleRate originalBuffer) of
        Inl e \<Rightarrow> Inl e
      | Inr chunkBuffer \<Rightarrow>
          (case copy_channels originalBuffer chunkBuffer start endpos
                  [0..<numberOfChannels originalBuffer] of
             Inl e \<Rightarrow> Inl e
           | Inr chs \<Rightarrow> Inr (chunkBuffer\<lparr>channelData := chs\<rparr>)))"

text \<open>
  The byte layout of the WAV container is not modelled: a blob is identified with the
  chunk buffer that \<open>audioBufferToWav\<close> encodes.
\<close>

datatype 'a Blob = WavBlob "'a AudioBuffer"

definition audioBufferToWav :: "'a AudioBuffer \<Rightarrow> 'a Blob" where
  "audioBufferToWav buffer = WavBlob buffer"

text \<open>The outer \<open>for (let i = 0; i < numChunks; i++)\<close> loop, with the list \<open>chunks\<close>.\<close>

function sliceAudio_loop ::
  "'a::zero AudioBuffer \<Rightarrow> rat \<Rightarrow> int \<Rightarrow> nat \<Rightarrow> 'a Blob list \<Rightarrow> js_error + 'a Blob list" where
  "sliceAudio_loop originalBuffer chunkLength numChunks i chunks =
     (if int i < numChunks then
        (let start = of_nat i * chunkLength;
             endpos = min (start + chunkLength) (of_nat (buf_length originalBuffer));
             chunkBufferLength = endpos - start
         in if chunkBufferLength \<le> 0
            then sliceAudio_loop originalBuffer chunkLength numChunks (i + 1) chunks
            else (case make_chunk originalBuffer start endpos chunkBufferLength of
                    Inl e \<Rightarrow> Inl e
                  | Inr chunkBuffer \<Rightarrow>
                      sliceAudio_loop originalBuffer chunkLength numChunks (i + 1)
                        (chunks @ [audioBufferToWav chunkBuffer])))
      else Inr chunks)"
  by pat_completeness auto
termination
  by (relation "measure (\<lambda>(ob, cl, n, i, chunks). nat (n - int i))") auto

declare sliceAudio_loop.simps [simp del]

text \<open>
  The part of \<open>sliceAudio\<close> after decoding, for a chunk duration and a sample rate
  that are positive. (At a chunk duration of 0 the source's division yields Infinity or
  NaN; the definition does not reproduce that.)
\<close>

definition sliceBuffer :: "'a::zero AudioBuffer \<Rightarrow> rat \<Rightarrow> js_error + 'a Blob list" where
  "sliceBuffer originalBuffer chunkDurationSeconds =
     (let chunkLength = sampleRate originalBuffer * chunkDurationSeconds;
          numChunks = \<lceil>duration originalBuffer / chunkDurationSeconds\<rceil>
      in sliceAudio_loop originalBuffer chunkLength numChunks 0 [])"

text \<open>
  \<open>sliceAudio\<close>: \<open>decodeAudioData\<close> is the browser's decoder, a parameter here; when it
  rejects, \<open>sliceAudio\<close> rejects with the same error and nothing else has happened.
\<close>

definition sliceAudio ::
  "('f \<Rightarrow> js_error + 'a::zero AudioBuffer) \<Rightarrow> 'f \<Rightarrow> rat \<Rightarrow> js_error + 'a Blob list" where
  "sliceAudio decodeAudioData file chunkDurationSeconds =
     (case decodeAudioData file of
        Inl e \<Rightarrow> Inl e
      | Inr originalBuffer \<Rightarrow> sliceBuffer originalBuffer chunkDurationSeconds)"

text \<open>
  For stating where a chunk lies: the blob of the samples \<open>[start, end)\<close> of every
  channel.
\<close>

definition range_blob :: "'a AudioBuffer \<Rightarrow> nat \<Rightarrow> nat \<Rightarrow> 'a Blob" where
  "range_blob b start endpos =
     WavBlob \<lparr>sampleRate = sampleRate b,
              numberOfChannels = numberOfChannels b,
              buf_length = endpos - start,
              channelData = map (\<lambda>ch. samples_between ch start endpos) (channelData b)\<rparr>"

fun blob_buffer :: "'a Blob \<Rightarrow> 'a AudioBuffer" where
  "blob_buffer (WavBlob b) = b"

text \<open>The blob of chunk \<open>k\<close> for a chunk length of \<open>cl\<close> samples.\<close>

definition chunk_at :: "'a AudioBuffer \<Rightarrow> nat \<Rightarrow> nat \<Rightarrow> 'a Blob" where
  "chunk_at ob cl k = range_blob ob (k * cl) (min (k * cl + cl) (buf_length ob))"




section \<open>services/gemini.ts\<close>

text \<open>
  \<open>s.trim()\<close> removes leading and trailing white space; the transcript is blank when
  nothing is left. (The white space characters of ASCII; strings are byte strings here.)
\<close>

definition is_space :: "char \<Rightarrow> bool" where
  "is_space ch = (ch \<in> set [CHR 0x20, CHR 0x09, CHR 0x0A, CHR 0x0B, CHR 0x0C, CHR 0x0D])"

definition trim :: "string \<Rightarrow> string" where
  "trim s = rev (dropWhile is_space (rev (dropWhile is_space s)))"

text \<open>
  The body of the \<open>try\<close> block of \<open>proofreadTranscript\<close>. \<open>generateContent\<close> stands for
  the model call on the prompt built from the transcript: it gives the response text or
  throws. \<open>parse_errors\<close> stands for \<open>JSON.parse(response.text)\<close> followed by the read of
  the field \<open>errors\<close>: it throws on text that is not JSON, and gives \<open>None\<close> when the
  field is missing (\<open>jsonResponse.errors || []\<close>).
\<close>

definition proofread_try ::
  "(string \<Rightarrow> js_error + string) \<Rightarrow> (string \<Rightarrow> js_error + string list option)
     \<Rightarrow> string \<Rightarrow> js_error + string list" where
  "proofread_try generateContent parse_errors transcript =
     (case generateContent transcript of
        Inl e \<Rightarrow> Inl e
      | Inr response_text \<Rightarrow>
          (case parse_errors response_text of
             Inl e \<Rightarrow> Inl e
           | Inr None \<Rightarrow> Inr []
           | Inr (Some errors) \<Rightarrow> Inr errors))"

definition proofreadTranscript ::
  "(string \<Rightarrow> js_error + string) \<Rightarrow> (string \<Rightarrow> js_error + string list option)
     \<Rightarrow> string \<Rightarrow> string list" where
  "proofreadTranscript generateContent parse_errors transcript =
     (if trim transcript = [] then []
      else (case proofread_try generateContent parse_errors transcript of
              Inl e \<Rightarrow> []
            | Inr sentences \<Rightarrow> sentences))"


section \<open>App.tsx\<close>

subsection \<open>State\<close>

datatype Status =
    St_idle | St_recording | St_processing_transcription | St_proofreading
  | St_transcribed | St_processing_formatting | St_success | St_error

datatype OutputFormat =
    Fmt_journalistic_english | Fmt_journalistic_bangla | Fmt_interview | Fmt_roundtable
  | Fmt_academic | Fmt_simple | Fmt_detailed | Fmt_json | Fmt_text | Fmt_markdown | Fmt_srt

datatype TranslationLanguage =
    Lang_none | Lang_english | Lang_spanish | Lang_french | Lang_german | Lang_bangla
  | Lang_hindi

fun language_name :: "TranslationLanguage \<Rightarrow> string" where
  "language_name Lang_none = ''none''"
| "language_name Lang_english = ''english''"
| "language_name Lang_spanish = ''spanish''"
| "language_name Lang_french = ''french''"
| "language_name Lang_german = ''german''"
| "language_name Lang_bangla = ''bangla''"
| "language_name Lang_hindi = ''hindi''"

text \<open>The \<open>useState\<close> cells of the component that the handlers below read or write.\<close>

record AppState =
  status :: Status
  error :: "string option"
  rawTranscription :: string
  formattedTranscript :: string
  processingMessage :: string
  outputFormat :: OutputFormat
  finalTranslationLanguage :: TranslationLanguage
  feedbackSubmitted :: bool
  feedbackMessage :: string
  selectedFileName :: "string option"
  highlightedSentences :: "string list"
  audioUrl :: string

text \<open>\<open>err instanceof Error ? err.message : "An unknown error occurred."\<close>\<close>

definition errorMessage :: "js_error \<Rightarrow> string" where
  "errorMessage err = (case err of Error m \<Rightarrow> m | NonError \<Rightarrow> ''An unknown error occurred.'')"

definition resetState :: "AppState \<Rightarrow> AppState" where
  "resetState s =
     s\<lparr>status := St_idle, error := None, rawTranscription := [], formattedTranscript := [],
       processingMessage := [], feedbackSubmitted := False, feedbackMessage := [],
       selectedFileName := None, highlightedSentences := [], audioUrl := []\<rparr>"

subsection \<open>Proofreading\<close>

text \<open>
  The \<open>try\<close> block of \<open>runProofreading\<close>: the lazy import of the service module, which
  can fail (\<open>Some e\<close>), then \<open>proofreadTranscript\<close>.
\<close>

definition proofread_call ::
  "js_error option \<Rightarrow> (string \<Rightarrow> js_error + string) \<Rightarrow> (string \<Rightarrow> js_error + string list option)
     \<Rightarrow> string \<Rightarrow> js_error + string list" where
  "proofread_call import_failure generateContent parse_errors transcript =
     (case import_failure of
        Some e \<Rightarrow> Inl e
      | None \<Rightarrow> Inr (proofreadTranscript generateContent parse_errors transcript))"

text \<open>
  \<open>runProofreading\<close> in its two steps: the state while the call is pending, and the state
  after \<open>try\<close>/\<open>catch\<close>/\<open>finally\<close> for either outcome of the call.
\<close>

definition enter_proofreading :: "AppState \<Rightarrow> AppState" where
  "enter_proofreading s =
     s\<lparr>status := St_proofreading,
       processingMessage := ''Checking transcript for potential errors...''\<rparr>"

definition finish_proofreading :: "js_error + string list \<Rightarrow> AppState \<Rightarrow> AppState" where
  "finish_proofreading outcome s =
     (case outcome of
        Inr sentences \<Rightarrow> s\<lparr>highlightedSentences := sentences\<rparr>
      | Inl err \<Rightarrow> s\<lparr>highlightedSentences := []\<rparr>)
     \<lparr>status := St_transcribed\<rparr>"

definition runProofreading ::
  "(string \<Rightarrow> js_error + string list) \<Rightarrow> string \<Rightarrow> AppState \<Rightarrow> AppState" where
  "runProofreading proofread transcript s =
     (if trim transcript = [] then s
      else finish_proofreading (proofread transcript) (enter_proofreading s))"

subsection \<open>Long audio upload\<close>

record 'f File =
  file_type :: string
  file_name :: string
  file_data :: 'f

definition validAudioTypes :: "string list" where
  "validAudioTypes =
     [''audio/mpeg'', ''audio/wav'', ''audio/webm'', ''audio/ogg'', ''audio/mp4'',
      ''audio/x-m4a'', ''audio/flac'', ''audio/aac'']"

definition CHUNK_DURATION_SECONDS :: rat where
  "CHUNK_DURATION_SECONDS = 15 * 60"

text \<open>
  The \<open>for (let i = 0; i < chunks.length; i++)\<close> loop of \<open>handleLongAudioUpload\<close>.
  \<open>transcribeAudioChunk\<close> stands for the service call (prompt, request and error
  mapping): its first argument is the number of the request, so that two requests with
  the same audio may be answered differently. The loop carries \<open>fullTranscript\<close>, the
  state, and the log of the chunk indices submitted so far; it ends with \<open>None\<close>, or with
  the error thrown by the call that failed.
\<close>

function transcribe_loop ::
  "(nat \<Rightarrow> 'b \<Rightarrow> js_error + string) \<Rightarrow> 'b list \<Rightarrow> nat \<Rightarrow> string \<times> AppState \<times> nat list
     \<Rightarrow> js_error option \<times> string \<times> AppState \<times> nat list" where
  "transcribe_loop transcribeAudioChunk chunks i (fullTranscript, s, calls) =
     (if i < length chunks then
        (let s1 = s\<lparr>processingMessage :=
                      ''Transcribing chunk '' @ String_of_nat (i + 1) @ '' of ''
                        @ String_of_nat (length chunks) @ ''...''\<rparr>;
             calls1 = calls @ [i]
         in case transcribeAudioChunk i (chunks ! i) of
              Inl e \<Rightarrow> (Some e, fullTranscript, s1, calls1)
            | Inr chunkTranscript \<Rightarrow>
                (let newContent = chunkTranscript @ NL @ NL;
                     s2 = s1\<lparr>rawTranscription := rawTranscription s1 @ newContent\<rparr>;
                     s3 = (if i < length chunks - 1
                           then s2\<lparr>processingMessage :=
                                      ''Chunk '' @ String_of_nat (i + 1) @ '' of ''
                                        @ String_of_nat (length chunks)
                                        @ '' transcribed. Starting next chunk...''\<rparr>
                           else s2)
                 in transcribe_loop transcribeAudioChunk chunks (i + 1)
                      (fullTranscript @ newContent, s3, calls1)))
      else (None, fullTranscript, s, calls))"
  by pat_completeness auto
termination
  by (relation "measure (\<lambda>(tr, chunks, i, acc). length chunks - i)") auto

declare transcribe_loop.simps [simp del]

text \<open>The \<open>catch\<close> block of \<open>handleLongAudioUpload\<close>.\<close>

definition long_audio_failed :: "js_error \<Rightarrow> AppState \<Rightarrow> AppState" where
  "long_audio_failed err s =
     s\<lparr>error := Some (''Long audio processing failed: '' @ errorMessage err),
       status := St_error\<rparr>"

text \<open>The state once the file has been accepted: \<open>resetState\<close> and three setters.\<close>

definition upload_started :: "'f File \<Rightarrow> AppState \<Rightarrow> AppState" where
  "upload_started file s =
     (resetState s)
       \<lparr>selectedFileName := Some (file_name file),
        status := St_processing_transcription,
        processingMessage :=
          ''Analyzing and slicing audio file. This may take a moment for large files...''\<rparr>"

text \<open>
  \<open>handleLongAudioUpload\<close>: the new state and the log of the chunk indices for which a
  transcription request was issued. \<open>None\<close> for the file is an event without a file.
\<close>

definition handleLongAudioUpload ::
  "('f File \<Rightarrow> js_error + 'a::zero AudioBuffer) \<Rightarrow> (nat \<Rightarrow> 'a Blob \<Rightarrow> js_error + string)
     \<Rightarrow> (string \<Rightarrow> js_error + string list) \<Rightarrow> 'f File option \<Rightarrow> AppState
     \<Rightarrow> AppState \<times> nat list" where
  "handleLongAudioUpload decodeAudioData transcribeAudioChunk proofread file_opt s =
     (case file_opt of
        None \<Rightarrow> (s, [])
      | Some file \<Rightarrow>
          if file_type file \<notin> set validAudioTypes then
            ((resetState s)
               \<lparr>error := Some (''Invalid file type: ''
                                @ (if file_type file = [] then ''unknown'' else file_type file)
                                @ ''. Please upload a valid audio file.''),
                status := St_error\<rparr>, [])
          else
            let s0 = upload_started file s
            in (case sliceAudio decodeAudioData file CHUNK_DURATION_SECONDS of
                 Inl err \<Rightarrow> (long_audio_failed err s0, [])
               | Inr chunks \<Rightarrow>
                   (case transcribe_loop transcribeAudioChunk chunks 0 ([], s0, []) of
                      (Some err, fullTranscript, s1, calls) \<Rightarrow> (long_audio_failed err s1, calls)
                    | (None, fullTranscript, s1, calls) \<Rightarrow>
                        if trim fullTranscript = [] then
                          (s1\<lparr>error := Some ''Transcription failed or the audio was empty.'',
                              status := St_error\<rparr>, calls)
                        else
                          (runProofreading proofread fullTranscript
                             (s1\<lparr>processingMessage :=
                                   ''Assembling and proofreading final transcript...''\<rparr>),
                           calls))))"

subsection \<open>Format request\<close>

text \<open>
  The service calls of a format request, in the order they are issued.
  \<open>formatTranscript\<close> and \<open>translateText\<close> stand for the two service functions (prompt,
  request and error mapping); the remaining arguments of \<open>formatTranscript\<close> (input
  language, timestamp and speaker options, glossary) are fixed inside the parameter.
\<close>

datatype api_call =
    Call_formatTranscript string OutputFormat
  | Call_translateText string TranslationLanguage

definition format_failed :: "js_error \<Rightarrow> AppState \<Rightarrow> AppState" where
  "format_failed err s =
     s\<lparr>error := Some (''Failed to process transcript: '' @ errorMessage err),
       status := St_error\<rparr>"

text \<open>
  \<open>handleFormatRequest\<close> is a closure of the render that created it. The state cells it
  reads, \<open>rawTranscription\<close> and \<open>finalTranslationLanguage\<close>, have the values of that
  render (\<open>render\<close>); the setters it calls update the state the component has when the
  handler runs (\<open>s\<close>).
\<close>

definition handleFormatRequest ::
  "(string \<Rightarrow> OutputFormat \<Rightarrow> js_error + string)
     \<Rightarrow> (string \<Rightarrow> TranslationLanguage \<Rightarrow> js_error + string)
     \<Rightarrow> AppState \<Rightarrow> OutputFormat \<Rightarrow> AppState \<Rightarrow> AppState \<times> api_call list" where
  "handleFormatRequest formatTranscript translateText render format s =
     (if rawTranscription render = [] then (s, [])
      else
        let message =
              (if finalTranslationLanguage render \<noteq> Lang_none
               then ''AI is formatting, then translating into ''
                      @ language_name (finalTranslationLanguage render) @ ''...''
               else ''AI is formatting your transcript...'');
            s1 = s\<lparr>outputFormat := format, status := St_processing_formatting,
                   formattedTranscript := [], feedbackSubmitted := False,
                   feedbackMessage := [], processingMessage := message\<rparr>;
            c1 = [Call_formatTranscript (rawTranscription render) format]
        in case formatTranscript (rawTranscription render) format of
             Inl err \<Rightarrow> (format_failed err s1, c1)
           | Inr formattedResult \<Rightarrow>
               if finalTranslationLanguage render \<noteq> Lang_none then
                 (let c2 = c1 @ [Call_translateText formattedResult
                                   (finalTranslationLanguage render)]
                  in case translateText formattedResult (finalTranslationLanguage render) of
                       Inl err \<Rightarrow> (format_failed err s1, c2)
                     | Inr translatedResult \<Rightarrow>
                         (s1\<lparr>formattedTranscript := translatedResult, status := St_success\<rparr>,
                          c2))
               else (s1\<lparr>formattedTranscript := formattedResult, status := St_success\<rparr>, c1))"

definition isBusy :: "AppState \<Rightarrow> bool" where
  "isBusy s =
     (status s = St_recording \<or> status s = St_processing_transcription
      \<or> status s = St_processing_formatting \<or> status s = St_proofreading)"


text \<open>
  A format shortcut goes through \<open>triggerAction\<close>, a \<open>useCallback\<close> with the dependencies
  \<open>[mode, status, isBusy, rawTranscription, formattedTranscript]\<close>: the callback, with the
  \<open>handleFormatRequest\<close> it captured, is the one of the last render at which one of
  these changed (\<open>render\<close>), which agrees with the current state on them
  (\<open>triggerAction_current\<close>; \<open>mode\<close> plays no part in a format action and \<open>isBusy\<close> is
  computed from the status) but not necessarily on the other cells, the target language
  among them.
\<close>

definition triggerAction_current :: "AppState \<Rightarrow> AppState \<Rightarrow> bool" where
  "triggerAction_current render s =
     (status render = status s \<and> rawTranscription render = rawTranscription s
      \<and> formattedTranscript render = formattedTranscript s)"

definition triggerAction_format ::
  "(string \<Rightarrow> OutputFormat \<Rightarrow> js_error + string)
     \<Rightarrow> (string \<Rightarrow> TranslationLanguage \<Rightarrow> js_error + string)
     \<Rightarrow> AppState \<Rightarrow> OutputFormat \<Rightarrow> AppState \<Rightarrow> AppState \<times> api_call list" where
  "triggerAction_format formatTranscript translateText render format s =
     (if rawTranscription render \<noteq> [] \<and> \<not> isBusy render
      then handleFormatRequest formatTranscript translateText render format s
      else (s, []))"

subsection \<open>What the two transcript cards offer\<close>

text \<open>
  The props passed to the raw and the formatted \<open>TranscriptCard\<close>. The raw card shows
  its text area, whose \<open>onChange\<close> is \<open>setRawTranscription\<close>, when it is editable and
  not showing the loading skeleton; the formatted card shows its download button when
  \<open>isDownloadable\<close>.
\<close>

definition isEditable :: "AppState \<Rightarrow> bool" where
  "isEditable s = (status s = St_transcribed \<or> status s = St_success)"

definition isRawLoading :: "AppState \<Rightarrow> bool" where
  "isRawLoading s =
     ((status s = St_processing_transcription \<or> status s = St_proofreading)
      \<and> rawTranscription s = [])"

definition isDownloadable :: "AppState \<Rightarrow> bool" where
  "isDownloadable s = (formattedTranscript s \<noteq> [] \<and> status s = St_success)"

definition edit_raw_transcript :: "string \<Rightarrow> AppState \<Rightarrow> AppState" where
  "edit_raw_transcript newContent s =
     (if \<not> (isRawLoading s \<and> rawTranscription s = []) \<and> isEditable s
      then s\<lparr>rawTranscription := newContent\<rparr>
      else s)"


section \<open>Speaker Identity Stitcher\<close>

text \<open>
  Modelled from the spec: the chunk stitcher runs in the backend
  (\<open>backend/services/chunk_stitcher.py\<close>), which is not among the sources; the client
  function \<open>enhanceChunks\<close> only posts the chunks and returns the server's answer. The
  definitions of this section follow the specification's data model and its description
  of the stitching algorithm. The chunk index of a segment is the position of its chunk
  in the outer sequence; times are relative to the start of the chunk.
\<close>

record 'e DiarizationSegment =
  chunkIndex :: nat
  localSpeakerId :: string
  startTime :: rat
  endTime :: rat
  voiceEmbedding :: 'e

text \<open>
  Modelled from the spec: the \<open>GlobalSpeakerMap\<close>, a mapping from (chunk index, local
  speaker id) to global speaker id, built chunk by chunk; the stitcher also remembers
  the next unused global id.
\<close>

type_synonym GlobalSpeakerMap = "nat \<times> string \<rightharpoonup> nat"

record StitcherState =
  speakerMap :: GlobalSpeakerMap
  nextGlobalId :: nat

definition stitcher_init :: StitcherState where
  "stitcher_init = \<lparr>speakerMap = Map.empty, nextGlobalId = 0\<rparr>"

text \<open>
  Modelled from the spec: a local speaker that is not mapped yet receives a brand-new
  global id; each distinct local speaker id of a chunk receives one.
\<close>

definition mint :: "nat \<Rightarrow> string \<Rightarrow> StitcherState \<Rightarrow> StitcherState" where
  "mint k l st =
     (case speakerMap st (k, l) of
        Some g \<Rightarrow> st
      | None \<Rightarrow> st\<lparr>speakerMap := (speakerMap st)((k, l) \<mapsto> nextGlobalId st),
                   nextGlobalId := Suc (nextGlobalId st)\<rparr>)"

fun mint_all :: "nat \<Rightarrow> string list \<Rightarrow> StitcherState \<Rightarrow> StitcherState" where
  "mint_all k [] st = st"
| "mint_all k (l # ls) st = mint_all k ls (mint k l st)"

text \<open>
  Modelled from the spec: the boundary window, the last \<open>W\<close> seconds of the previous
  chunk and the first \<open>W\<close> seconds of the current one. The previous chunk ends where its
  last segment ends.
\<close>

definition chunk_end :: "'e DiarizationSegment list \<Rightarrow> rat" where
  "chunk_end segs = fold max (map endTime segs) 0"

definition last_window :: "rat \<Rightarrow> 'e DiarizationSegment list \<Rightarrow> 'e DiarizationSegment list" where
  "last_window W segs = filter (\<lambda>d. chunk_end segs - W < endTime d) segs"

definition first_window :: "rat \<Rightarrow> 'e DiarizationSegment list \<Rightarrow> 'e DiarizationSegment list" where
  "first_window W segs = filter (\<lambda>d. startTime d < W) segs"

text \<open>
  Modelled from the spec: the pairwise similarities between the boundary-region speakers
  of the previous chunk and those of the current chunk. The similarity of two embeddings
  (cosine similarity in the specification) is the parameter \<open>similarity\<close>.
\<close>

definition boundary_pairs ::
  "('e \<Rightarrow> 'e \<Rightarrow> rat) \<Rightarrow> rat \<Rightarrow> 'e DiarizationSegment list \<Rightarrow> 'e DiarizationSegment list
     \<Rightarrow> (rat \<times> string \<times> string) list" where
  "boundary_pairs similarity W prev cur =
     concat (map (\<lambda>p. map (\<lambda>c. (similarity (voiceEmbedding p) (voiceEmbedding c),
                                 localSpeakerId p, localSpeakerId c))
                          (first_window W cur))
                 (last_window W prev))"

text \<open>
  Modelled from the spec: greedy matching considers the candidate pairs in descending
  order of similarity. One pair assigns the global id of the previous chunk's speaker to
  the current chunk's speaker when the similarity exceeds the threshold \<open>T\<close>, the
  current speaker is not mapped yet, and that global id has not been given to another
  speaker of the current chunk (\<open>taken\<close>); otherwise the pair changes nothing.
\<close>

definition match_pair ::
  "rat \<Rightarrow> nat \<Rightarrow> rat \<Rightarrow> string \<Rightarrow> string \<Rightarrow> nat list \<Rightarrow> StitcherState
     \<Rightarrow> nat list \<times> StitcherState" where
  "match_pair T k v p c taken st =
     (case speakerMap st (k - 1, p) of
        None \<Rightarrow> (taken, st)
      | Some g \<Rightarrow>
          if T < v \<and> speakerMap st (k, c) = None \<and> g \<notin> set taken
          then (g # taken, st\<lparr>speakerMap := (speakerMap st)((k, c) \<mapsto> g)\<rparr>)
          else (taken, st))"

fun greedy_match ::
  "rat \<Rightarrow> nat \<Rightarrow> (rat \<times> string \<times> string) list \<Rightarrow> nat list \<Rightarrow> StitcherState \<Rightarrow> StitcherState" where
  "greedy_match T k [] taken st = st"
| "greedy_match T k ((v, p, c) # rest) taken st =
     (case match_pair T k v p c taken st of
        (taken', st') \<Rightarrow> greedy_match T k rest taken' st')"

text \<open>
  Modelled from the spec: the candidate pairs of a boundary, in descending order of
  similarity (pairs of equal similarity keep the order of \<open>boundary_pairs\<close>).
\<close>

definition candidates ::
  "('e \<Rightarrow> 'e \<Rightarrow> rat) \<Rightarrow> rat \<Rightarrow> 'e DiarizationSegment list \<Rightarrow> 'e DiarizationSegment list
     \<Rightarrow> (rat \<times> string \<times> string) list" where
  "candidates similarity W prev cur =
     sort_key (\<lambda>(v, p, c). - v) (boundary_pairs similarity W prev cur)"

text \<open>
  Modelled from the spec: one chunk \<open>k > 0\<close> is stitched to its predecessor by greedy
  matching, then every local speaker of the chunk left unmatched receives a new id.
\<close>

definition stitch_chunk ::
  "('e \<Rightarrow> 'e \<Rightarrow> rat) \<Rightarrow> rat \<Rightarrow> rat \<Rightarrow> nat \<Rightarrow> 'e DiarizationSegment list
     \<Rightarrow> 'e DiarizationSegment list \<Rightarrow> StitcherState \<Rightarrow> StitcherState" where
  "stitch_chunk similarity W T k prev cur st =
     mint_all k (map localSpeakerId cur)
       (greedy_match T k (candidates similarity W prev cur) [] st)"

fun stitch_from ::
  "('e \<Rightarrow> 'e \<Rightarrow> rat) \<Rightarrow> rat \<Rightarrow> rat \<Rightarrow> nat \<Rightarrow> 'e DiarizationSegment list
     \<Rightarrow> 'e DiarizationSegment list list \<Rightarrow> StitcherState \<Rightarrow> StitcherState" where
  "stitch_from similarity W T k prev [] st = st"
| "stitch_from similarity W T k prev (cur # rest) st =
     stitch_from similarity W T (Suc k) cur rest (stitch_chunk similarity W T k prev cur st)"

text \<open>
  Modelled from the spec: \<open>stitch\<close> processes the chunks in order; chunk 0 gives each of
  its distinct local speakers a fresh global id, every later chunk is stitched to the
  chunk before it.
\<close>

definition stitch ::
  "('e \<Rightarrow> 'e \<Rightarrow> rat) \<Rightarrow> rat \<Rightarrow> rat \<Rightarrow> 'e DiarizationSegment list list \<Rightarrow> StitcherState" where
  "stitch similarity W T perChunkDiarization =
     (case perChunkDiarization of
        [] \<Rightarrow> stitcher_init
      | first # rest \<Rightarrow>
          stitch_from similarity W T 1 first rest
            (mint_all 0 (map localSpeakerId first) stitcher_init))"

text \<open>
  Modelled from the spec: the history of a stitching job, for stating what a query can
  see at any moment of it. The map is built incrementally; the history lists every state
  the stitcher passes through, from the empty map on: the state after each speaker
  considered for a new id and after each candidate pair considered by the matching, in
  the order of the algorithm above. Its last state is the result of \<open>stitch\<close>.
\<close>

fun mint_all_history :: "nat \<Rightarrow> string list \<Rightarrow> StitcherState \<Rightarrow> StitcherState list" where
  "mint_all_history k [] st = []"
| "mint_all_history k (l # ls) st = mint k l st # mint_all_history k ls (mint k l st)"

fun greedy_match_history ::
  "rat \<Rightarrow> nat \<Rightarrow> (rat \<times> string \<times> string) list \<Rightarrow> nat list \<Rightarrow> StitcherState
     \<Rightarrow> StitcherState list" where
  "greedy_match_history T k [] taken st = []"
| "greedy_match_history T k ((v, p, c) # rest) taken st =
     (case match_pair T k v p c taken st of
        (taken', st') \<Rightarrow> st' # greedy_match_history T k rest taken' st')"

definition stitch_chunk_history ::
  "('e \<Rightarrow> 'e \<Rightarrow> rat) \<Rightarrow> rat \<Rightarrow> rat \<Rightarrow> nat \<Rightarrow> 'e DiarizationSegment list
     \<Rightarrow> 'e DiarizationSegment list \<Rightarrow> StitcherState \<Rightarrow> StitcherState list" where
  "stitch_chunk_history similarity W T k prev cur st =
     greedy_match_history T k (candidates similarity W prev cur) [] st
     @ mint_all_history k (map localSpeakerId cur)
         (greedy_match T k (candidates similarity W prev cur) [] st)"

fun stitch_from_history ::
  "('e \<Rightarrow> 'e \<Rightarrow> rat) \<Rightarrow> rat \<Rightarrow> rat \<Rightarrow> nat \<Rightarrow> 'e DiarizationSegment list
     \<Rightarrow> 'e DiarizationSegment list list \<Rightarrow> StitcherState \<Rightarrow> StitcherState list" where
  "stitch_from_history similarity W T k prev [] st = []"
| "stitch_from_history similarity W T k prev (cur # rest) st =
     stitch_chunk_history similarity W T k prev cur st
     @ stitch_from_history similarity W T (Suc k) cur rest
         (stitch_chunk similarity W T k prev cur st)"

definition stitch_history ::
  "('e \<Rightarrow> 'e \<Rightarrow> rat) \<Rightarrow> rat \<Rightarrow> rat \<Rightarrow> 'e DiarizationSegment list list
     \<Rightarrow> StitcherState list" where
  "stitch_history similarity W T perChunkDiarization =
     stitcher_init #
     (case perChunkDiarization of
        [] \<Rightarrow> []
      | first # rest \<Rightarrow>
          mint_all_history 0 (map localSpeakerId first) stitcher_init
          @ stitch_from_history similarity W T 1 first rest
              (mint_all 0 (map localSpeakerId first) stitcher_init))"

text \<open>
  Concrete diarization output of two consecutive chunks, with embeddings drawn as
  numbers: the speaker \<open>S1\<close> at the end of the first chunk has the voice of the speaker
  \<open>S0\<close> at the start of the second.
\<close>

definition example_similarity :: "nat \<Rightarrow> nat \<Rightarrow> rat" where
  "example_similarity a b = (if a = b then 9 / 10 else 1 / 10)"

definition example_chunk0 :: "nat DiarizationSegment list" where
  "example_chunk0 =
     [\<lparr>chunkIndex = 0, localSpeakerId = ''S0'', startTime = 0, endTime = 880, voiceEmbedding = 1\<rparr>,
      \<lparr>chunkIndex = 0, localSpeakerId = ''S1'', startTime = 880, endTime = 900, voiceEmbedding = 2\<rparr>]"

definition example_chunk1 :: "nat DiarizationSegment list" where
  "example_chunk1 =
     [\<lparr>chunkIndex = 1, localSpeakerId = ''S0'', startTime = 0, endTime = 20, voiceEmbedding = 2\<rparr>,
      \<lparr>chunkIndex = 1, localSpeakerId = ''S1'', startTime = 20, endTime = 600, voiceEmbedding = 3\<rparr>]"


subsection \<open>Notions for the statements about the upload\<close>

text \<open>
  The text assembled from the chunk transcripts \<open>t i, ..., t (j - 1)\<close>: each followed by
  the paragraph break the loop appends.
\<close>

definition assembled :: "(nat \<Rightarrow> string) \<Rightarrow> nat \<Rightarrow> nat \<Rightarrow> string" where
  "assembled t i j = concat (map (\<lambda>k. t k @ NL @ NL) [i..<j])"

text \<open>A state seen through the two cells the transcription loop writes.\<close>

definition showing :: "AppState \<Rightarrow> string \<Rightarrow> string \<Rightarrow> AppState" where
  "showing s raw pm = s\<lparr>rawTranscription := raw, processingMessage := pm\<rparr>"

text \<open>
  Concrete inputs: a 40 minute mono recording at 8 kHz (silence), its file, the state of
  a freshly mounted component (the initial values of the \<open>useState\<close> cells), and a state
  after a successful format request with a translation language selected.
\<close>

definition example_buffer :: "int AudioBuffer" where
  "example_buffer =
     \<lparr>sampleRate = 8000, numberOfChannels = 1, buf_length = 19200000,
      channelData = [replicate 19200000 0]\<rparr>"

definition example_file :: "unit File" where
  "example_file = \<lparr>file_type = ''audio/wav'', file_name = ''interview.wav'', file_data = ()\<rparr>"

definition decode_example :: "unit File \<Rightarrow> js_error + int AudioBuffer" where
  "decode_example file = Inr example_buffer"




definition initial_state :: AppState where
  "initial_state =
     \<lparr>status = St_idle, error = None, rawTranscription = [], formattedTranscript = [],
      processingMessage = [], outputFormat = Fmt_journalistic_english,
      finalTranslationLanguage = Lang_none, feedbackSubmitted = False, feedbackMessage = [],
      selectedFileName = None, highlightedSentences = [], audioUrl = []\<rparr>"

text \<open>
  Concrete collaborators: a transcription service whose second answer is a transient
  failure, a proofreader that flags nothing, a formatter that answers, and a translator
  that runs into the rate limit.
\<close>

definition second_request_fails :: "nat \<Rightarrow> int Blob \<Rightarrow> js_error + string" where
  "second_request_fails i chunk =
     (if i = 1
      then Inl (Error ''The AI model encountered an internal error. Please try again in a few moments.'')
      else Inr ''Speaker A: hello.'')"

definition no_flags :: "string \<Rightarrow> js_error + string list" where
  "no_flags transcript = Inr []"

definition format_answers :: "string \<Rightarrow> OutputFormat \<Rightarrow> js_error + string" where
  "format_answers transcript format = Inr ''formatted v2''"

definition translate_fails :: "string \<Rightarrow> TranslationLanguage \<Rightarrow> js_error + string" where
  "translate_fails t lang =
     Inl (Error ''API rate limit or quota exceeded. Please check your usage or try again later.'')"

definition formatted_state :: AppState where
  "formatted_state =
     \<lparr>status = St_success, error = None, rawTranscription = ''raw text v1'',
      formattedTranscript = ''artifact v1'', processingMessage = [],
      outputFormat = Fmt_simple, finalTranslationLanguage = Lang_spanish,
      feedbackSubmitted = False, feedbackMessage = [], selectedFileName = None,
      highlightedSentences = [], audioUrl = []\<rparr>"

text \<open>
  The render of \<open>formatted_state\<close> before the target language was selected: the same
  cells, with the language \<open>none\<close>.
\<close>

definition render_before_language :: AppState where
  "render_before_language = formatted_state\<lparr>finalTranslationLanguage := Lang_none\<rparr>"


section \<open>Properties of services/postprocessing.ts\<close>

lemma timed_captions_Cons:
  "timed_captions (seg # segments) =
     (case seg_start seg of
        None \<Rightarrow> timed_captions segments
      | Some st \<Rightarrow>
          (case seg_end seg of
             None \<Rightarrow> timed_captions segments
           | Some en \<Rightarrow> (st, en, caption_text seg) # timed_captions segments))"
  by (simp add: timed_captions_def split: option.splits)

lemma exportToSRT_loop_blocks:
  "exportToSRT_loop segments acc index =
     acc @ concat (map (\<lambda>(i, cap). srt_block i cap)
                      (zip [index..<index + length (timed_captions segments)]
                           (timed_captions segments)))"
proof (induction segments arbitrary: acc index)
  case Nil
  show ?case by (simp add: timed_captions_def)
next
  case (Cons seg segments)
  let ?ts = "timed_captions segments"
  show ?case
  proof (cases "seg_start seg")
    case None
    then show ?thesis using Cons.IH [of acc index] by (simp add: timed_captions_Cons)
  next
    case st: (Some st)
    show ?thesis
    proof (cases "seg_end seg")
      case None
      then show ?thesis using st Cons.IH [of acc index] by (simp add: timed_captions_Cons)
    next
      case en: (Some en)
      have tc: "timed_captions (seg # segments) = (st, en, caption_text seg) # ?ts"
        using st en by (simp add: timed_captions_Cons)
      have up: "[index..<index + length ((st, en, caption_text seg) # ?ts)]
                  = index # [Suc index..<Suc index + length ?ts]"
        using upt_conv_Cons [of index "index + Suc (length ?ts)"]
        by (simp del: upt_Suc)
      have "exportToSRT_loop (seg # segments) acc index
              = exportToSRT_loop segments
                  (acc @ srt_block index (st, en, caption_text seg)) (Suc index)"
        using st en by (simp add: srt_block_def)
      also have "\<dots> = (acc @ srt_block index (st, en, caption_text seg))
                   @ concat (map (\<lambda>(i, cap). srt_block i cap)
                               (zip [Suc index..<Suc index + length ?ts] ?ts))"
        by (rule Cons.IH)
      also have "\<dots> = acc @ concat (map (\<lambda>(i, cap). srt_block i cap)
                   (zip (index # [Suc index..<Suc index + length ?ts])
                        ((st, en, caption_text seg) # ?ts)))"
        by simp
      finally show ?thesis by (simp only: tc up)
    qed
  qed
qed

lemma js_rem_of_nat: "0 < m \<Longrightarrow> js_rem (of_nat n) (of_nat m) = of_nat (n mod m)"
proof -
  assume m: "0 < m"
  have "\<lfloor>(of_nat n :: rat) / of_nat m\<rfloor> = int (n div m)"
    by (simp add: floor_divide_of_nat_eq)
  then have "js_trunc (of_nat n / of_nat m) = int (n div m)"
    by (simp add: js_trunc_def)
  then have "js_rem (of_nat n) (of_nat m) = of_nat n - of_nat m * of_nat (n div m)"
    by (simp add: js_rem_def)
  also have "\<dots> = of_nat (n mod m)"
    by (metis (no_types) add_diff_cancel_left' mult_div_mod_eq of_nat_add of_nat_mult)
  finally show ?thesis .
qed

text \<open>On a whole number of seconds the timestamp has no rounding to do.\<close>

lemma formatSRTTimestamp_of_nat:
  "formatSRTTimestamp (of_nat n) =
     padStart 2 CHR ''0'' (String_of_nat (n div 3600)) @ '':'' @
     padStart 2 CHR ''0'' (String_of_nat (n mod 3600 div 60)) @ '':'' @
     padStart 2 CHR ''0'' (String_of_nat (n mod 60)) @ '',000''"
proof -
  have h: "\<lfloor>(of_nat n :: rat) / 3600\<rfloor> = int (n div 3600)"
    using floor_divide_of_nat_eq [of n 3600, where ?'a = rat] by simp
  have r1: "js_rem (of_nat n) 3600 = of_nat (n mod 3600)"
    using js_rem_of_nat [of 3600 n] by simp
  have m: "\<lfloor>js_rem (of_nat n) 3600 / 60\<rfloor> = int (n mod 3600 div 60)"
    using floor_divide_of_nat_eq [of "n mod 3600" 60, where ?'a = rat] by (simp add: r1)
  have r2: "js_rem (of_nat n) 60 = of_nat (n mod 60)"
    using js_rem_of_nat [of 60 n] by simp
  have r3: "js_rem (of_nat n) 1 = 0"
    using js_rem_of_nat [of 1 n] by simp
  show ?thesis
    unfolding formatSRTTimestamp_def Let_def h m r2 r3
    by (simp add: String_of_int_def String_of_nat_def padStart_def numeral_2_eq_2)
qed

text \<open>
  C8, as the code has it. \<open>exportToSRT\<close> emits one caption block for each segment that
  has both a start and an end time, in the order of the input list, and numbers the
  blocks 1, 2, 3, ... without a gap; segments lacking a time are skipped and take no
  number. The times are printed as they are given: the export neither sorts the segments
  nor checks that the times increase.
\<close>

theorem exportToSRT_sequential_ids_input_order:
  "exportToSRT segments =
     concat (map (\<lambda>(i, cap). srt_block i cap)
               (zip [1..<1 + length (timed_captions segments)] (timed_captions segments)))"
  unfolding exportToSRT_def by (simp only: exportToSRT_loop_blocks append_Nil)

text \<open>
  C8, as the claim states it, fails: on a list whose second segment lies before the first
  (5 s to 6 s, then 1 s to 2 s) the export returns both blocks in the given order, so
  block 2 starts four seconds before block 1; nothing is rejected and nothing is
  re-sorted.
\<close>

theorem exportToSRT_decreasing_times_emitted:
  "exportToSRT
     [\<lparr>seg_text = ''later'', seg_start = Some 5, seg_end = Some 6, seg_speaker = None\<rparr>,
      \<lparr>seg_text = ''earlier'', seg_start = Some 1, seg_end = Some 2, seg_speaker = Some ''A''\<rparr>]
   = ''1'' @ NL @ ''00:00:05,000 --> 00:00:06,000'' @ NL @ ''later'' @ NL @ NL @
     ''2'' @ NL @ ''00:00:01,000 --> 00:00:02,000'' @ NL @ ''A: earlier'' @ NL @ NL"
  using formatSRTTimestamp_of_nat [of 5] formatSRTTimestamp_of_nat [of 6]
    formatSRTTimestamp_of_nat [of 1] formatSRTTimestamp_of_nat [of 2]
  by (simp add: exportToSRT_def caption_text_def String_of_nat_def padStart_def)

text \<open>
  C10. When the number of audio chunks differs from the number of transcripts,
  \<open>enhanceChunks\<close> throws \<open>Number of audio chunks must match number of transcripts\<close> and
  has had no effect at all: no progress message, no form data, no request. Conversely a
  request to the backend appears among the effects only when the two lists have the same
  length.
\<close>

theorem enhanceChunks_length_check_first:
  "(length audioChunks \<noteq> length geminiTranscripts \<longrightarrow>
      enhanceChunks env backend cb audioChunks geminiTranscripts options
        = (Inl (Error ''Number of audio chunks must match number of transcripts''), []))
   \<and> ((\<exists>e \<in> set (snd (enhanceChunks env backend cb audioChunks geminiTranscripts options)).
          is_Fetch e)
        \<longrightarrow> length audioChunks = length geminiTranscripts)"
proof (cases "length audioChunks = length geminiTranscripts")
  case True
  then show ?thesis by simp
next
  case False
  then have "enhanceChunks env backend cb audioChunks geminiTranscripts options
               = (Inl (Error ''Number of audio chunks must match number of transcripts''), [])"
    by (simp add: enhanceChunks_def)
  then show ?thesis by simp
qed

theorem enhanceChunks_length_check_first_witness:
  "length [7, 8 :: nat] \<noteq> length [''only one transcript'']
   \<and> enhanceChunks None (\<lambda>u f. Response_ok (Inr (0::nat))) True [7, 8] [''only one transcript'']
         \<lparr>enableTimestampAlignment = None, enableSpeakerVerification = None\<rparr>
       = (Inl (Error ''Number of audio chunks must match number of transcripts''), [])
   \<and> (\<exists>e \<in> set (snd (enhanceChunks None (\<lambda>u f. Response_ok (Inr (0::nat))) True [7] [''one'']
                         \<lparr>enableTimestampAlignment = None, enableSpeakerVerification = None\<rparr>)).
         is_Fetch e)
   \<and> length [7] = length [''one'']"
  using enhanceChunks_length_check_first
          [of "[7, 8]" "[''only one transcript'']" None "\<lambda>u f. Response_ok (Inr (0::nat))" True
              "\<lparr>enableTimestampAlignment = None, enableSpeakerVerification = None\<rparr>"]
        enhanceChunks_length_check_first
          [of "[7]" "[''one'']" None "\<lambda>u f. Response_ok (Inr (0::nat))" True
              "\<lparr>enableTimestampAlignment = None, enableSpeakerVerification = None\<rparr>"]
  by (simp add: enhanceChunks_def onProgress_def is_Fetch_def)


section \<open>Properties of utils/audioSlicer.ts\<close>

lemma js_trunc_of_nat: "js_trunc (of_nat n) = int n"
  by (simp add: js_trunc_def)

lemma to_index_of_nat: "to_index (of_nat n) len = min n len"
  by (simp add: to_index_def js_trunc_of_nat)

lemma subarray_whole:
  "b \<le> e \<Longrightarrow> e \<le> length a \<Longrightarrow> subarray a (of_nat b) (of_nat e) = samples_between a b e"
  by (simp add: subarray_def to_index_of_nat)

lemma typed_set_fresh:
  "length src = n \<Longrightarrow> typed_set (replicate n (0::'a::zero)) src = Inr src"
  by (simp add: typed_set_def)

lemma length_samples_between:
  "e \<le> length a \<Longrightarrow> length (samples_between a b e) = e - b"
  by (simp add: samples_between_def)

lemma createBuffer_whole:
  "0 < n \<Longrightarrow>
     createBuffer channels (of_nat n) rate
       = Inr \<lparr>sampleRate = rate, numberOfChannels = channels, buf_length = n,
              channelData = replicate channels (replicate n 0)\<rparr>"
  by (simp add: createBuffer_def js_trunc_of_nat)

lemma copy_channels_ok:
  assumes "\<forall>j \<in> set js. j < length (channelData ob) \<and> length (channelData ob ! j) = buf_length ob
                        \<and> channelData cb ! j = replicate (e - b) 0"
    and "e \<le> buf_length ob" and "b \<le> e"
  shows "copy_channels ob cb (of_nat b) (of_nat e) js
           = Inr (map (\<lambda>j. samples_between (channelData ob ! j) b e) js)"
  using assms
  by (induction js) (simp_all add: typed_set_fresh length_samples_between subarray_whole)

lemma make_chunk_ok:
  assumes "well_formed ob" "e \<le> buf_length ob" "b < e"
  shows "make_chunk ob (of_nat b) (of_nat e) (of_nat e - of_nat b)
           = Inr (blob_buffer (range_blob ob b e))"
proof -
  let ?cb = "\<lparr>sampleRate = sampleRate ob, numberOfChannels = numberOfChannels ob,
              buf_length = e - b,
              channelData = replicate (numberOfChannels ob) (replicate (e - b) (0::'a))\<rparr>"
  have d: "(of_nat e :: rat) - of_nat b = of_nat (e - b)"
    using assms(3) by simp
  have "createBuffer (numberOfChannels ob) (of_nat (e - b)) (sampleRate ob) = Inr ?cb"
    by (rule createBuffer_whole) (use assms(3) in simp)
  then have cb: "createBuffer (numberOfChannels ob) (of_nat e - of_nat b) (sampleRate ob) = Inr ?cb"
    by (simp only: d)
  have a: "\<forall>j \<in> set [0..<numberOfChannels ob].
             j < length (channelData ob) \<and> length (channelData ob ! j) = buf_length ob
             \<and> channelData ?cb ! j = replicate (e - b) 0"
    using assms(1) by (auto simp: well_formed_def list_all_length)
  have m: "map (\<lambda>j. samples_between (channelData ob ! j) b e) [0..<numberOfChannels ob]
             = map (\<lambda>ch. samples_between ch b e) (channelData ob)"
    using assms(1) by (simp add: well_formed_def list_eq_iff_nth_eq)
  have "b \<le> e" using assms(3) by simp
  from copy_channels_ok [OF a assms(2) this]
  show ?thesis
    by (simp add: make_chunk_def cb m range_blob_def)
qed

lemma sliceAudio_loop_ok:
  assumes "well_formed ob" "\<forall>k. int k < n \<longrightarrow> k * cl < buf_length ob" "0 < cl"
  shows "sliceAudio_loop ob (of_nat cl) n i chunks
           = Inr (chunks @ map (chunk_at ob cl) [i..<nat n])"
  using assms
proof (induction ob "of_nat cl :: rat" n i chunks rule: sliceAudio_loop.induct)
  case (1 ob n i chunks)
  show ?case
  proof (cases "int i < n")
    case False
    then show ?thesis by (subst sliceAudio_loop.simps) simp
  next
    case True
    let ?s = "i * cl" and ?e = "min (i * cl + cl) (buf_length ob)"
    let ?start = "of_nat i * (of_nat cl :: rat)"
    let ?endpos = "min (?start + of_nat cl) (of_nat (buf_length ob) :: rat)"
    have lt: "?s < ?e" using True "1.prems" by simp
    have st: "?start = of_nat ?s" by simp
    have en: "min ((of_nat ?s :: rat) + of_nat cl) (of_nat (buf_length ob)) = of_nat ?e"
      by (simp only: of_nat_min of_nat_add)
    have "(of_nat ?s :: rat) < of_nat ?e" using lt by (simp only: of_nat_less_iff)
    then have pos0: "\<not> (of_nat ?e :: rat) - of_nat ?s \<le> 0" by linarith
    have pos: "\<not> ?endpos - ?start \<le> 0"
      using pos0 by (simp only: st en not_False_eq_True)
    have "make_chunk ob (of_nat ?s) (of_nat ?e) (of_nat ?e - of_nat ?s)
            = Inr (blob_buffer (range_blob ob ?s ?e))"
      by (rule make_chunk_ok [OF "1.prems"(1) _ lt]) simp
    then have mk0: "make_chunk ob (of_nat ?s) (of_nat ?e) (of_nat ?e - of_nat ?s)
            = Inr (blob_buffer (chunk_at ob cl i))"
      by (simp only: chunk_at_def)
    have mk: "make_chunk ob ?start ?endpos (?endpos - ?start)
                = Inr (blob_buffer (chunk_at ob cl i))"
      using mk0 by (simp only: st en)
    have wb: "audioBufferToWav (blob_buffer (chunk_at ob cl i)) = chunk_at ob cl i"
      by (simp add: audioBufferToWav_def chunk_at_def range_blob_def)
    have ih: "sliceAudio_loop ob (of_nat cl) n (i + 1) (chunks @ [chunk_at ob cl i])
                = Inr ((chunks @ [chunk_at ob cl i]) @ map (chunk_at ob cl) [i + 1..<nat n])"
      using "1.hyps"(2) [OF True refl refl refl pos mk "1.prems"] by (simp only: wb)
    have up: "[i..<nat n] = i # [i + 1..<nat n]" using True by (simp add: upt_conv_Cons)
    have step: "sliceAudio_loop ob (of_nat cl) n i chunks
                  = sliceAudio_loop ob (of_nat cl) n (i + 1) (chunks @ [chunk_at ob cl i])"
      using True pos mk by (subst sliceAudio_loop.simps) (simp only: Let_def if_True if_False sum.case wb)
    show ?thesis
      unfolding step ih up by simp
  qed
qed

lemma numChunks_bounds:
  fixes L cl :: nat and sr c :: rat
  assumes "0 < sr" "0 < c" "sr * c = of_nat cl"
  defines "n \<equiv> \<lceil>(of_nat L / sr) / c\<rceil>"
  shows "\<forall>k. int k < n \<longrightarrow> k * cl < L" and "L \<le> nat n * cl" and "0 < cl"
proof -
  let ?x = "(of_nat L / sr) / c"
  have pos: "(0::rat) < of_nat cl" using assms(1,2,3) by (metis mult_pos_pos)
  then show cl: "0 < cl" by simp
  have x: "?x = of_nat L / of_nat cl" using assms(3) by simp
  have "0 \<le> ?x" using assms(1,2) by simp
  then have nn: "0 \<le> n" unfolding n_def by (metis ceiling_mono ceiling_zero)
  show "\<forall>k. int k < n \<longrightarrow> k * cl < L"
  proof (intro allI impI)
    fix k assume "int k < n"
    then have "of_int (int k) < ?x" unfolding n_def by (simp only: less_ceiling_iff)
    then have "(of_nat k :: rat) < of_nat L / of_nat cl" by (simp only: x of_int_of_nat_eq)
    then have "(of_nat k :: rat) * of_nat cl < of_nat L"
      using pos by (simp add: pos_less_divide_eq)
    then have "(of_nat (k * cl) :: rat) < of_nat L" by simp
    then show "k * cl < L" by (simp only: of_nat_less_iff)
  qed
  have "?x \<le> of_int n" unfolding n_def by (rule le_of_int_ceiling)
  also have "of_int n = (of_nat (nat n) :: rat)" using nn by simp
  finally have "of_nat L / of_nat cl \<le> (of_nat (nat n) :: rat)" by (simp only: x)
  then have "(of_nat L :: rat) \<le> of_nat (nat n) * of_nat cl"
    using pos by (simp add: pos_divide_le_eq)
  then have "(of_nat L :: rat) \<le> of_nat (nat n * cl)" by simp
  then show "L \<le> nat n * cl" by (simp only: of_nat_le_iff)
qed




lemma sliceBuffer_ok:
  assumes "well_formed ob" "0 < sampleRate ob" "0 < c" "sampleRate ob * c = of_nat cl"
  shows "sliceBuffer ob c = Inr (map (chunk_at ob cl) [0..<nat \<lceil>duration ob / c\<rceil>])"
proof -
  have b: "\<forall>k. int k < \<lceil>duration ob / c\<rceil> \<longrightarrow> k * cl < buf_length ob"
    unfolding duration_def by (rule numChunks_bounds(1) [OF assms(2,3,4)])
  have p: "0 < cl" by (rule numChunks_bounds(3) [OF assms(2,3,4)])
  show ?thesis
    unfolding sliceBuffer_def Let_def assms(4)
    using sliceAudio_loop_ok [OF assms(1) b p, of 0 "[]"] by simp
qed





section \<open>Properties of App.tsx and services/gemini.ts\<close>

subsection \<open>The transcription loop\<close>

lemma showing_self: "showing s (rawTranscription s) (processingMessage s) = s"
  by (simp add: showing_def)

lemma showing_message: "(showing s raw pm)\<lparr>processingMessage := pm'\<rparr> = showing s raw pm'"
  by (simp add: showing_def)

lemma showing_raw: "(showing s raw pm)\<lparr>rawTranscription := raw'\<rparr> = showing s raw' pm"
  by (cases s) (simp add: showing_def)

lemma showing_sel:
  "rawTranscription (showing s raw pm) = raw"
  "processingMessage (showing s raw pm) = pm"
  "status (showing s raw pm) = status s"
  "error (showing s raw pm) = error s"
  "highlightedSentences (showing s raw pm) = highlightedSentences s"
  "formattedTranscript (showing s raw pm) = formattedTranscript s"
  by (simp_all add: showing_def)

lemma assembled_Suc: "i \<le> j \<Longrightarrow> assembled t i (Suc j) = assembled t i j @ t j @ NL @ NL"
  by (simp add: assembled_def)

lemma transcribe_loop_done:
  "\<not> i < length chunks \<Longrightarrow>
     transcribe_loop tr chunks i (ft, s, calls) = (None, ft, s, calls)"
  by (subst transcribe_loop.simps) simp

lemma transcribe_loop_fail:
  assumes "i < length chunks" "tr i (chunks ! i) = Inl e"
  shows "\<exists>pm'. transcribe_loop tr chunks i (ft, showing s raw pm, calls)
           = (Some e, ft, showing s raw pm', calls @ [i])"
proof -
  have "transcribe_loop tr chunks i (ft, showing s raw pm, calls)
          = (Some e, ft,
             showing s raw (''Transcribing chunk '' @ String_of_nat (i + 1) @ '' of ''
                              @ String_of_nat (length chunks) @ ''...''),
             calls @ [i])"
    using assms by (subst transcribe_loop.simps) (simp add: Let_def showing_message)
  then show ?thesis by (rule exI)
qed

lemma transcribe_loop_step:
  assumes "i < length chunks" "tr i (chunks ! i) = Inr x"
  shows "\<exists>pm'. transcribe_loop tr chunks i (ft, showing s raw pm, calls)
           = transcribe_loop tr chunks (Suc i)
               (ft @ x @ NL @ NL, showing s (raw @ x @ NL @ NL) pm', calls @ [i])"
proof -
  let ?m1 = "''Transcribing chunk '' @ String_of_nat (i + 1) @ '' of ''
               @ String_of_nat (length chunks) @ ''...''"
  let ?m2 = "''Chunk '' @ String_of_nat (i + 1) @ '' of '' @ String_of_nat (length chunks)
               @ '' transcribed. Starting next chunk...''"
  have "transcribe_loop tr chunks i (ft, showing s raw pm, calls)
       = transcribe_loop tr chunks (Suc i)
           (ft @ x @ NL @ NL,
            showing s (raw @ x @ NL @ NL) (if i < length chunks - 1 then ?m2 else ?m1),
            calls @ [i])"
    using assms
    by (subst transcribe_loop.simps)
       (simp add: Let_def showing_message showing_raw showing_sel)
  then show ?thesis by (rule exI)
qed

lemma transcribe_loop_prefix:
  assumes "\<forall>j. i \<le> j \<and> j < i + k \<longrightarrow> tr j (chunks ! j) = Inr (t j)"
    and "i + k \<le> length chunks"
  shows "\<exists>pm'. transcribe_loop tr chunks i (ft, showing s raw pm, calls)
           = transcribe_loop tr chunks (i + k)
               (ft @ assembled t i (i + k), showing s (raw @ assembled t i (i + k)) pm',
                calls @ [i..<i + k])"
  using assms
proof (induction k)
  case 0
  show ?case by (rule exI [of _ pm]) (simp add: assembled_def)
next
  case (Suc k)
  from Suc.prems have p: "\<forall>j. i \<le> j \<and> j < i + k \<longrightarrow> tr j (chunks ! j) = Inr (t j)"
    and b: "i + k \<le> length chunks" and l: "i + k < length chunks"
    and here: "tr (i + k) (chunks ! (i + k)) = Inr (t (i + k))"
    by auto
  from Suc.IH [OF p b] obtain pm1 where
    a: "transcribe_loop tr chunks i (ft, showing s raw pm, calls)
          = transcribe_loop tr chunks (i + k)
              (ft @ assembled t i (i + k), showing s (raw @ assembled t i (i + k)) pm1,
               calls @ [i..<i + k])"
    by blast
  from transcribe_loop_step [of "i + k" chunks tr "t (i + k)", OF l here] obtain pm2 where
    c: "transcribe_loop tr chunks (i + k)
              (ft @ assembled t i (i + k), showing s (raw @ assembled t i (i + k)) pm1,
               calls @ [i..<i + k])
          = transcribe_loop tr chunks (Suc (i + k))
              ((ft @ assembled t i (i + k)) @ t (i + k) @ NL @ NL,
               showing s ((raw @ assembled t i (i + k)) @ t (i + k) @ NL @ NL) pm2,
               (calls @ [i..<i + k]) @ [i + k])"
    by blast
  show ?case
    unfolding a c by (rule exI [of _ pm2]) (simp add: assembled_Suc)
qed

lemma transcribe_loop_all_ok:
  assumes "\<forall>j < length chunks. tr j (chunks ! j) = Inr (t j)"
  shows "\<exists>pm'. transcribe_loop tr chunks 0 ([], s, [])
           = (None, assembled t 0 (length chunks),
              showing s (rawTranscription s @ assembled t 0 (length chunks)) pm',
              [0..<length chunks])"
proof -
  from transcribe_loop_prefix
         [of 0 "length chunks" tr chunks t "[]" s "rawTranscription s" "processingMessage s" "[]"]
       assms
  obtain pm' where
    "transcribe_loop tr chunks 0 ([], s, [])
       = transcribe_loop tr chunks (length chunks)
           (assembled t 0 (length chunks),
            showing s (rawTranscription s @ assembled t 0 (length chunks)) pm',
            [0..<length chunks])"
    by (auto simp: showing_self)
  then show ?thesis by (auto simp: transcribe_loop_done)
qed

lemma transcribe_loop_first_failure:
  assumes "m < length chunks" "\<forall>j < m. tr j (chunks ! j) = Inr (t j)"
    and "tr m (chunks ! m) = Inl e"
  shows "\<exists>pm'. transcribe_loop tr chunks 0 ([], s, [])
           = (Some e, assembled t 0 m,
              showing s (rawTranscription s @ assembled t 0 m) pm', [0..<Suc m])"
proof -
  from transcribe_loop_prefix
         [of 0 m tr chunks t "[]" s "rawTranscription s" "processingMessage s" "[]"]
       assms(1,2)
  obtain pm1 where
    a: "transcribe_loop tr chunks 0 ([], s, [])
       = transcribe_loop tr chunks m
           (assembled t 0 m, showing s (rawTranscription s @ assembled t 0 m) pm1, [0..<m])"
    by (auto simp: showing_self)
  from transcribe_loop_fail [of m chunks tr e, OF assms(1,3)] obtain pm2 where
    b: "transcribe_loop tr chunks m
           (assembled t 0 m, showing s (rawTranscription s @ assembled t 0 m) pm1, [0..<m])
        = (Some e, assembled t 0 m, showing s (rawTranscription s @ assembled t 0 m) pm2,
           [0..<m] @ [m])"
    by blast
  show ?thesis unfolding a b by (rule exI [of _ pm2]) simp
qed


lemma upload_aborted:
  assumes "file_type file \<in> set validAudioTypes"
    and "sliceAudio decodeAudioData file CHUNK_DURATION_SECONDS = Inr chunks"
    and "transcribe_loop transcribeAudioChunk chunks 0 ([], upload_started file s, [])
           = (Some e, ft, s1, calls)"
  shows "handleLongAudioUpload decodeAudioData transcribeAudioChunk proofread (Some file) s
           = (long_audio_failed e s1, calls)"
  using assms by (simp add: handleLongAudioUpload_def)

lemma upload_completed:
  assumes "file_type file \<in> set validAudioTypes"
    and "sliceAudio decodeAudioData file CHUNK_DURATION_SECONDS = Inr chunks"
    and "transcribe_loop transcribeAudioChunk chunks 0 ([], upload_started file s, [])
           = (None, ft, s1, calls)"
  shows "handleLongAudioUpload decodeAudioData transcribeAudioChunk proofread (Some file) s
           = (if trim ft = []
              then s1\<lparr>error := Some ''Transcription failed or the audio was empty.'',
                      status := St_error\<rparr>
              else runProofreading proofread ft
                     (s1\<lparr>processingMessage :=
                           ''Assembling and proofreading final transcript...''\<rparr>),
              calls)"
  using assms by (simp add: handleLongAudioUpload_def)

lemma upload_started_sel:
  "rawTranscription (upload_started file s) = []"
  "highlightedSentences (upload_started file s) = []"
  "status (upload_started file s) = St_processing_transcription"
  by (simp_all add: upload_started_def resetState_def)

lemma runProofreading_raw:
  "rawTranscription (runProofreading proofread x y) = rawTranscription y"
  by (simp add: runProofreading_def finish_proofreading_def enter_proofreading_def
        split: sum.splits)

lemma example_slices:
  "sliceAudio decode_example example_file CHUNK_DURATION_SECONDS
     = Inr [chunk_at example_buffer 7200000 0, chunk_at example_buffer 7200000 1,
            chunk_at example_buffer 7200000 2]"
proof -
  have n: "nat \<lceil>duration example_buffer / CHUNK_DURATION_SECONDS\<rceil> = 3"
  proof -
    have "\<lceil>(8::rat) / 3\<rceil> = 3" by (simp add: ceiling_eq_iff)
    then show ?thesis by (simp add: duration_def example_buffer_def CHUNK_DURATION_SECONDS_def)
  qed
  have wf: "well_formed example_buffer" by (simp add: well_formed_def example_buffer_def)
  have u: "[0..<3] = [0, 1, 2::nat]" by (simp add: upt_rec)
  have "sliceBuffer example_buffer CHUNK_DURATION_SECONDS
          = Inr (map (chunk_at example_buffer 7200000)
                   [0..<nat \<lceil>duration example_buffer / CHUNK_DURATION_SECONDS\<rceil>])"
    by (rule sliceBuffer_ok [OF wf]) (simp_all add: example_buffer_def CHUNK_DURATION_SECONDS_def)
  then show ?thesis unfolding n u by (simp add: sliceAudio_def decode_example_def)
qed

lemma example_file_valid: "file_type example_file \<in> set validAudioTypes"
  by (simp add: example_file_def validAudioTypes_def)

subsection \<open>A chunk whose transcription fails\<close>

text \<open>
  C2, as the code has it. When the transcription of chunk \<open>m\<close> throws and the chunks
  before it succeeded, the job is aborted: the requests issued are exactly those for the
  chunks \<open>0, ..., m\<close>, so no later chunk is submitted; the status becomes \<open>error\<close> with
  the message \<open>Long audio processing failed: ...\<close>; the transcript on display is the text
  of the chunks before \<open>m\<close>, each followed by its paragraph break, with no marker for
  the failed chunk; and proofreading is not run (no sentence is flagged).
\<close>

theorem chunk_failure_aborts_job:
  assumes "file_type file \<in> set validAudioTypes"
    and "sliceAudio decodeAudioData file CHUNK_DURATION_SECONDS = Inr chunks"
    and "m < length chunks"
    and "\<forall>j < m. transcribeAudioChunk j (chunks ! j) = Inr (t j)"
    and "transcribeAudioChunk m (chunks ! m) = Inl e"
  shows "snd (handleLongAudioUpload decodeAudioData transcribeAudioChunk proofread (Some file) s)
           = [0..<Suc m]
       \<and> status (fst (handleLongAudioUpload decodeAudioData transcribeAudioChunk proofread
                         (Some file) s)) = St_error
       \<and> error (fst (handleLongAudioUpload decodeAudioData transcribeAudioChunk proofread
                        (Some file) s))
           = Some (''Long audio processing failed: '' @ errorMessage e)
       \<and> rawTranscription (fst (handleLongAudioUpload decodeAudioData transcribeAudioChunk
                                   proofread (Some file) s))
           = assembled t 0 m
       \<and> highlightedSentences (fst (handleLongAudioUpload decodeAudioData transcribeAudioChunk
                                       proofread (Some file) s)) = []"
proof -
  from transcribe_loop_first_failure
         [of m chunks transcribeAudioChunk t e "upload_started file s", OF assms(3,4,5)]
  obtain pm' where
    l: "transcribe_loop transcribeAudioChunk chunks 0 ([], upload_started file s, [])
          = (Some e, assembled t 0 m,
             showing (upload_started file s)
               (rawTranscription (upload_started file s) @ assembled t 0 m) pm',
             [0..<Suc m])"
    by blast
  show ?thesis
    unfolding upload_aborted [OF assms(1,2) l]
    by (simp add: long_audio_failed_def showing_sel upload_started_sel del: upt_Suc)
qed

theorem chunk_failure_aborts_job_witness:
  "snd (handleLongAudioUpload decode_example (\<lambda>i b. Inl NonError)
          (\<lambda>t. Inr []) (Some example_file) initial_state) = [0]
   \<and> status (fst (handleLongAudioUpload decode_example (\<lambda>i b. Inl NonError)
          (\<lambda>t. Inr []) (Some example_file) initial_state)) = St_error
   \<and> error (fst (handleLongAudioUpload decode_example (\<lambda>i b. Inl NonError)
          (\<lambda>t. Inr []) (Some example_file) initial_state))
       = Some ''Long audio processing failed: An unknown error occurred.''
   \<and> rawTranscription (fst (handleLongAudioUpload decode_example (\<lambda>i b. Inl NonError)
          (\<lambda>t. Inr []) (Some example_file) initial_state)) = []"
  using chunk_failure_aborts_job
          [OF example_file_valid example_slices, of 0 "\<lambda>i b. Inl NonError" "\<lambda>j. []" NonError
             "\<lambda>t. Inr []" initial_state]
  by (simp add: errorMessage_def assembled_def)

text \<open>
  C2, as the claim states it, fails. A 40 minute file gives three chunks; the model
  answers the second request with a transient internal error. The job ends in the
  \<open>error\<close> status, the third chunk is never submitted (the requests are those for
  chunks 0 and 1), and the transcript on display is the first chunk's text alone: there
  is neither a partial-success status nor a gap marker.
\<close>

theorem chunk_failure_stops_transcription:
  "snd (handleLongAudioUpload decode_example second_request_fails no_flags
          (Some example_file) initial_state) = [0, 1]
   \<and> status (fst (handleLongAudioUpload decode_example second_request_fails no_flags
                     (Some example_file) initial_state)) = St_error
   \<and> rawTranscription (fst (handleLongAudioUpload decode_example second_request_fails no_flags
                               (Some example_file) initial_state))
       = ''Speaker A: hello.'' @ NL @ NL"
proof -
  let ?e = "Error ''The AI model encountered an internal error. Please try again in a few moments.''"
  let ?chunks = "[chunk_at example_buffer 7200000 0, chunk_at example_buffer 7200000 1,
                  chunk_at example_buffer 7200000 2]"
  let ?s0 = "upload_started example_file initial_state"
  have "\<exists>pm'. transcribe_loop second_request_fails ?chunks 0 ([], ?s0, [])
           = (Some ?e, assembled (\<lambda>j. ''Speaker A: hello.'') 0 1,
              showing ?s0 (rawTranscription ?s0 @ assembled (\<lambda>j. ''Speaker A: hello.'') 0 1) pm',
              [0..<Suc 1])"
    by (rule transcribe_loop_first_failure) (simp_all add: second_request_fails_def)
  then obtain pm' where
    l: "transcribe_loop second_request_fails ?chunks 0 ([], ?s0, [])
           = (Some ?e, assembled (\<lambda>j. ''Speaker A: hello.'') 0 1,
              showing ?s0 (rawTranscription ?s0 @ assembled (\<lambda>j. ''Speaker A: hello.'') 0 1) pm',
              [0..<Suc 1])"
    by blast
  show ?thesis
    unfolding upload_aborted [OF example_file_valid example_slices l]
    by (simp add: long_audio_failed_def showing_sel upload_started_sel assembled_def)
qed

subsection \<open>Order of assembly\<close>

text \<open>
  C3. In every job whose file is accepted and sliced, the requests are issued one at a
  time in ascending index order, the request for chunk \<open>i + 1\<close> only after the response
  for chunk \<open>i\<close> has been appended, so no response can arrive out of order. The raw
  transcript is, for some \<open>m\<close>, the transcripts of the chunks \<open>0, ..., m - 1\<close> in
  ascending index order, each followed by a paragraph break (two line feeds); \<open>m\<close> is
  the number of chunks exactly when every chunk is transcribed.
\<close>

theorem upload_in_index_order:
  assumes "file_type file \<in> set validAudioTypes"
    and "sliceAudio decodeAudioData file CHUNK_DURATION_SECONDS = Inr chunks"
  shows "\<exists>m \<le> length chunks.
           rawTranscription (fst (handleLongAudioUpload decodeAudioData transcribeAudioChunk
                                    proofread (Some file) s))
             = concat (map (\<lambda>j. (case transcribeAudioChunk j (chunks ! j) of
                                    Inr chunkTranscript \<Rightarrow> chunkTranscript
                                  | Inl e \<Rightarrow> []) @ NL @ NL)
                          [0..<m])
         \<and> snd (handleLongAudioUpload decodeAudioData transcribeAudioChunk proofread
                   (Some file) s)
             = [0..<min (Suc m) (length chunks)]
         \<and> (m = length chunks
              \<longleftrightarrow> (\<forall>j < length chunks. \<exists>x. transcribeAudioChunk j (chunks ! j) = Inr x))"
proof -
  let ?tr = transcribeAudioChunk
  let ?t = "\<lambda>j. (case ?tr j (chunks ! j) of Inr chunkTranscript \<Rightarrow> chunkTranscript | Inl e \<Rightarrow> [])"
  let ?R = "handleLongAudioUpload decodeAudioData ?tr proofread (Some file) s"
  let ?s0 = "upload_started file s"
  show ?thesis
  proof (cases "\<forall>j < length chunks. \<exists>x. ?tr j (chunks ! j) = Inr x")
    case True
    then have ok: "\<forall>j < length chunks. ?tr j (chunks ! j) = Inr (?t j)" by auto
    from transcribe_loop_all_ok [of chunks ?tr ?t ?s0, OF ok]
    obtain pm' where
      l: "transcribe_loop ?tr chunks 0 ([], ?s0, [])
            = (None, assembled ?t 0 (length chunks),
               showing ?s0 (rawTranscription ?s0 @ assembled ?t 0 (length chunks)) pm',
               [0..<length chunks])"
      by blast
    have "rawTranscription (fst ?R) = assembled ?t 0 (length chunks)
          \<and> snd ?R = [0..<length chunks]"
      unfolding upload_completed [OF assms(1,2) l]
      by (simp add: showing_sel showing_message runProofreading_raw upload_started_sel)
    then show ?thesis using True
      by (intro exI [of _ "length chunks"]) (simp add: assembled_def)
  next
    case False
    then have ex: "\<exists>j. j < length chunks \<and> (\<exists>e. ?tr j (chunks ! j) = Inl e)"
      by (metis sum.collapse)
    define m where "m = (LEAST j. j < length chunks \<and> (\<exists>e. ?tr j (chunks ! j) = Inl e))"
    have m: "m < length chunks \<and> (\<exists>e. ?tr m (chunks ! m) = Inl e)"
      unfolding m_def using ex by (rule LeastI_ex)
    then obtain e where e: "?tr m (chunks ! m) = Inl e" by blast
    have before: "\<forall>j < m. ?tr j (chunks ! j) = Inr (?t j)"
    proof (intro allI impI)
      fix j assume j: "j < m"
      then have "\<not> (j < length chunks \<and> (\<exists>e. ?tr j (chunks ! j) = Inl e))"
        unfolding m_def by (rule not_less_Least)
      then have "\<not> (\<exists>e. ?tr j (chunks ! j) = Inl e)" using j m by simp
      then show "?tr j (chunks ! j) = Inr (?t j)"
        by (cases "?tr j (chunks ! j)") simp_all
    qed
    from transcribe_loop_first_failure [of m chunks ?tr ?t e ?s0] m before e
    obtain pm' where
      l: "transcribe_loop ?tr chunks 0 ([], ?s0, [])
            = (Some e, assembled ?t 0 m,
               showing ?s0 (rawTranscription ?s0 @ assembled ?t 0 m) pm', [0..<Suc m])"
      by blast
    have "rawTranscription (fst ?R) = assembled ?t 0 m \<and> snd ?R = [0..<Suc m]"
      unfolding upload_aborted [OF assms(1,2) l]
      by (simp add: long_audio_failed_def showing_sel upload_started_sel del: upt_Suc)
    moreover have "min (Suc m) (length chunks) = Suc m" using m by simp
    moreover have "m \<noteq> length chunks" using m by simp
    ultimately show ?thesis using False m
      by (intro exI [of _ m]) (simp add: assembled_def del: upt_Suc)
  qed
qed

theorem upload_in_index_order_witness:
  "snd (handleLongAudioUpload decode_example
          (\<lambda>i b. Inr ([''first quarter hour'', ''second quarter hour'', ''last ten minutes''] ! i))
          (\<lambda>t. Inr []) (Some example_file) initial_state) = [0, 1, 2]
   \<and> rawTranscription (fst (handleLongAudioUpload decode_example
          (\<lambda>i b. Inr ([''first quarter hour'', ''second quarter hour'', ''last ten minutes''] ! i))
          (\<lambda>t. Inr []) (Some example_file) initial_state))
       = ''first quarter hour'' @ NL @ NL @ ''second quarter hour'' @ NL @ NL
           @ ''last ten minutes'' @ NL @ NL"
proof -
  have u: "[0..<3] = [0, 1, 2::nat]" by (simp add: upt_rec)
  show ?thesis
    using upload_in_index_order
          [OF example_file_valid example_slices,
           of "\<lambda>i b. Inr ([''first quarter hour'', ''second quarter hour'', ''last ten minutes''] ! i)"
              "\<lambda>t. Inr []" initial_state]
    by (auto simp: u)
qed

subsection \<open>Undecodable input\<close>




subsection \<open>Format, then translate\<close>



text \<open>
  A format shortcut pressed after a target language was selected, with no change of
  status, raw transcript or artifact in between, runs the handler of the render before
  the selection: the text is formatted, translation is never called, and the request
  ends in \<open>success\<close> with the untranslated text.
\<close>

lemma shortcut_ignores_new_language:
  "triggerAction_current render_before_language formatted_state
   \<and> finalTranslationLanguage formatted_state = Lang_spanish
   \<and> snd (triggerAction_format format_answers translate_fails render_before_language
            Fmt_simple formatted_state)
       = [Call_formatTranscript ''raw text v1'' Fmt_simple]
   \<and> formattedTranscript
        (fst (triggerAction_format format_answers translate_fails render_before_language
                Fmt_simple formatted_state)) = ''formatted v2''
   \<and> status
        (fst (triggerAction_format format_answers translate_fails render_before_language
                Fmt_simple formatted_state)) = St_success"
  by (simp add: triggerAction_current_def triggerAction_format_def isBusy_def
        render_before_language_def formatted_state_def handleFormatRequest_def
        format_answers_def)




subsection \<open>Proofreading is advisory\<close>

text \<open>
  C6. Whenever the body of \<open>proofreadTranscript\<close> throws (the model call or the parsing
  of its answer), the function returns the empty list. \<open>runProofreading\<close> on a transcript
  that is not blank enters the \<open>proofreading\<close> status and always leaves it for
  \<open>transcribed\<close>, whatever the outcome of the call; when the import of the service or
  the call fails, no sentence is flagged. On a blank transcript \<open>runProofreading\<close>
  returns at once and the \<open>proofreading\<close> status is never entered.
\<close>

theorem proofreading_never_blocks:
  "(\<forall>e. proofread_try generateContent parse_errors transcript = Inl e \<longrightarrow>
          proofreadTranscript generateContent parse_errors transcript = [])
   \<and> status (enter_proofreading s) = St_proofreading
   \<and> status (finish_proofreading outcome (enter_proofreading s)) = St_transcribed
   \<and> (trim transcript \<noteq> [] \<longrightarrow>
        status (runProofreading (proofread_call import_failure generateContent parse_errors)
                  transcript s) = St_transcribed)
   \<and> (trim transcript \<noteq> [] \<longrightarrow>
        (import_failure \<noteq> None
           \<or> (\<exists>e. proofread_try generateContent parse_errors transcript = Inl e)) \<longrightarrow>
        highlightedSentences
          (runProofreading (proofread_call import_failure generateContent parse_errors)
             transcript s) = [])
   \<and> (trim transcript = [] \<longrightarrow>
        runProofreading (proofread_call import_failure generateContent parse_errors)
          transcript s = s)"
  by (auto simp: proofreadTranscript_def runProofreading_def finish_proofreading_def
        enter_proofreading_def proofread_call_def split: sum.splits option.splits)

theorem proofreading_never_blocks_witness:
  "trim ''hello'' \<noteq> []
   \<and> proofread_try (\<lambda>p. Inl (Error ''503'')) (\<lambda>r. Inr None) ''hello'' = Inl (Error ''503'')
   \<and> proofreadTranscript (\<lambda>p. Inl (Error ''503'')) (\<lambda>r. Inr None) ''hello'' = []
   \<and> status (runProofreading (proofread_call (Some NonError) (\<lambda>p. Inl (Error ''503''))
                                (\<lambda>r. Inr None))
               ''hello'' (initial_state\<lparr>highlightedSentences := [''stale flag'']\<rparr>))
       = St_transcribed
   \<and> highlightedSentences
         (runProofreading (proofread_call (Some NonError) (\<lambda>p. Inl (Error ''503''))
                             (\<lambda>r. Inr None))
            ''hello'' (initial_state\<lparr>highlightedSentences := [''stale flag'']\<rparr>)) = []
   \<and> trim ''  '' = []
   \<and> runProofreading (proofread_call None (\<lambda>p. Inl (Error ''503'')) (\<lambda>r. Inr None))
         ''  '' initial_state = initial_state"
  using proofreading_never_blocks
          [where generateContent = "\<lambda>p. Inl (Error ''503'')" and parse_errors = "\<lambda>r. Inr None"
             and transcript = "''hello''" and import_failure = "Some NonError"
             and s = "initial_state\<lparr>highlightedSentences := [''stale flag'']\<rparr>"]
        proofreading_never_blocks
          [where generateContent = "\<lambda>p. Inl (Error ''503'')" and parse_errors = "\<lambda>r. Inr None"
             and transcript = "''  ''" and import_failure = None and s = initial_state]
  by (simp add: trim_def is_space_def proofread_try_def)

subsection \<open>Editing the raw transcript\<close>

text \<open>
  C7, as the code has it. The raw transcript is editable exactly in the \<open>transcribed\<close>
  and \<open>success\<close> statuses. An edit replaces the raw transcript and nothing else: the
  status and the formatted artifact stay as they were, so the download of the formatted
  artifact is offered after the edit exactly when it was offered before.
\<close>

theorem edit_keeps_artifact:
  "isEditable s = (status s = St_transcribed \<or> status s = St_success)
   \<and> edit_raw_transcript newContent s
       = (if isEditable s then s\<lparr>rawTranscription := newContent\<rparr> else s)
   \<and> status (edit_raw_transcript newContent s) = status s
   \<and> formattedTranscript (edit_raw_transcript newContent s) = formattedTranscript s
   \<and> isDownloadable (edit_raw_transcript newContent s) = isDownloadable s"
  by (auto simp: isEditable_def edit_raw_transcript_def isRawLoading_def isDownloadable_def)

text \<open>
  C7, as the claim states it, fails in its second part: after a successful format
  request, an edit of the raw transcript leaves the earlier artifact in place and still
  downloadable, without a new format request.
\<close>

theorem stale_artifact_stays_downloadable:
  "isDownloadable (edit_raw_transcript ''raw text v2'' formatted_state)
   \<and> rawTranscription (edit_raw_transcript ''raw text v2'' formatted_state) = ''raw text v2''
   \<and> formattedTranscript (edit_raw_transcript ''raw text v2'' formatted_state) = ''artifact v1''"
  by (simp add: formatted_state_def isEditable_def edit_raw_transcript_def isRawLoading_def isDownloadable_def)

section \<open>Properties of the Speaker Identity Stitcher\<close>

lemma mint_mono: "speakerMap st \<subseteq>\<^sub>m speakerMap (mint k l st)"
  by (auto simp: mint_def map_le_def split: option.splits)

lemma match_pair_mono:
  "speakerMap st \<subseteq>\<^sub>m speakerMap (snd (match_pair T k v p c taken st))"
  by (auto simp: match_pair_def map_le_def split: option.splits)

text \<open>
  A chain: a list of states in which every state's map is extended by the map of every
  later state.
\<close>

lemma chain_Cons:
  assumes "speakerMap a \<subseteq>\<^sub>m speakerMap b"
    and "sorted_wrt (\<lambda>x y. speakerMap x \<subseteq>\<^sub>m speakerMap y) (b # xs)"
  shows "sorted_wrt (\<lambda>x y. speakerMap x \<subseteq>\<^sub>m speakerMap y) (a # b # xs)"
  using assms by (auto intro: map_le_trans)

lemma chain_append:
  assumes "sorted_wrt (\<lambda>x y. speakerMap x \<subseteq>\<^sub>m speakerMap y) (a # xs)"
    and "sorted_wrt (\<lambda>x y. speakerMap x \<subseteq>\<^sub>m speakerMap y) (last (a # xs) # ys)"
  shows "sorted_wrt (\<lambda>x y. speakerMap x \<subseteq>\<^sub>m speakerMap y) (a # xs @ ys)"
proof -
  have l: "\<forall>x \<in> set (a # xs). speakerMap x \<subseteq>\<^sub>m speakerMap (last (a # xs))"
  proof
    fix x assume x: "x \<in> set (a # xs)"
    show "speakerMap x \<subseteq>\<^sub>m speakerMap (last (a # xs))"
    proof (cases "x = last (a # xs)")
      case True
      then show ?thesis by simp
    next
      case False
      from x obtain i where i: "i < length (a # xs)" "(a # xs) ! i = x"
        by (meson in_set_conv_nth)
      have "i \<noteq> length (a # xs) - 1"
        using False i by (metis last_conv_nth list.distinct(1))
      then have "i < length (a # xs) - 1" using i(1) by simp
      then have le: "speakerMap ((a # xs) ! i) \<subseteq>\<^sub>m speakerMap ((a # xs) ! (length (a # xs) - 1))"
        by (intro sorted_wrt_nth_less [OF assms(1)]) simp_all
      have lst: "last (a # xs) = (a # xs) ! (length (a # xs) - 1)"
        by (rule last_conv_nth) simp
      show ?thesis unfolding lst i(2) [symmetric] by (rule le)
    qed
  qed
  have "\<forall>x \<in> set (a # xs). \<forall>y \<in> set ys. speakerMap x \<subseteq>\<^sub>m speakerMap y"
  proof (intro ballI)
    fix x y assume "x \<in> set (a # xs)" "y \<in> set ys"
    then have "speakerMap x \<subseteq>\<^sub>m speakerMap (last (a # xs))"
      and "speakerMap (last (a # xs)) \<subseteq>\<^sub>m speakerMap y"
      using l assms(2) by auto
    then show "speakerMap x \<subseteq>\<^sub>m speakerMap y" by (rule map_le_trans)
  qed
  moreover have "sorted_wrt (\<lambda>x y. speakerMap x \<subseteq>\<^sub>m speakerMap y) ys"
    using assms(2) by simp
  ultimately have "sorted_wrt (\<lambda>x y. speakerMap x \<subseteq>\<^sub>m speakerMap y) ((a # xs) @ ys)"
    using assms(1) by (simp only: sorted_wrt_append simp_thms)
  then show ?thesis by simp
qed

lemma mint_all_history_chain:
  "sorted_wrt (\<lambda>x y. speakerMap x \<subseteq>\<^sub>m speakerMap y) (st # mint_all_history k ls st)"
proof (induction ls arbitrary: st)
  case Nil
  show ?case by simp
next
  case (Cons l ls)
  show ?case
    unfolding mint_all_history.simps
    by (rule chain_Cons [OF mint_mono Cons.IH])
qed

lemma mint_all_history_last: "last (st # mint_all_history k ls st) = mint_all k ls st"
  by (induction ls arbitrary: st) simp_all

lemma greedy_match_history_chain:
  "sorted_wrt (\<lambda>x y. speakerMap x \<subseteq>\<^sub>m speakerMap y)
     (st # greedy_match_history T k cands taken st)"
proof (induction cands arbitrary: taken st)
  case Nil
  show ?case by simp
next
  case (Cons pair cands)
  obtain v p c where pair: "pair = (v, p, c)" by (cases pair) auto
  obtain taken' st' where m: "match_pair T k v p c taken st = (taken', st')"
    by (cases "match_pair T k v p c taken st") auto
  have "speakerMap st \<subseteq>\<^sub>m speakerMap st'"
    using match_pair_mono [of st T k v p c taken] by (simp add: m)
  then have "sorted_wrt (\<lambda>x y. speakerMap x \<subseteq>\<^sub>m speakerMap y)
               (st # st' # greedy_match_history T k cands taken' st')"
    by (rule chain_Cons) (rule Cons.IH)
  then show ?case by (simp add: pair m)
qed

lemma greedy_match_history_last:
  "last (st # greedy_match_history T k cands taken st) = greedy_match T k cands taken st"
proof (induction cands arbitrary: taken st)
  case Nil
  show ?case by simp
next
  case (Cons pair cands)
  obtain v p c where pair: "pair = (v, p, c)" by (cases pair) auto
  obtain taken' st' where m: "match_pair T k v p c taken st = (taken', st')"
    by (cases "match_pair T k v p c taken st") auto
  show ?case using Cons.IH [of st' taken'] by (simp add: pair m)
qed

lemma stitch_chunk_history_chain:
  "sorted_wrt (\<lambda>x y. speakerMap x \<subseteq>\<^sub>m speakerMap y)
     (st # stitch_chunk_history similarity W T k prev cur st)"
  unfolding stitch_chunk_history_def
  by (rule chain_append [OF greedy_match_history_chain])
     (simp only: greedy_match_history_last mint_all_history_chain)

lemma stitch_chunk_history_last:
  "last (st # stitch_chunk_history similarity W T k prev cur st)
     = stitch_chunk similarity W T k prev cur st"
proof -
  let ?g = "greedy_match_history T k (candidates similarity W prev cur) [] st"
  let ?m = "mint_all_history k (map localSpeakerId cur)
              (greedy_match T k (candidates similarity W prev cur) [] st)"
  have "last (st # ?g @ ?m) = last (last (st # ?g) # ?m)"
    by (cases ?m) simp_all
  then show ?thesis
    by (simp only: stitch_chunk_history_def stitch_chunk_def greedy_match_history_last
          mint_all_history_last)
qed

lemma stitch_from_history_chain:
  "sorted_wrt (\<lambda>x y. speakerMap x \<subseteq>\<^sub>m speakerMap y)
     (st # stitch_from_history similarity W T k prev chunks st)"
proof (induction chunks arbitrary: k prev st)
  case Nil
  show ?case by simp
next
  case (Cons cur rest)
  show ?case
    unfolding stitch_from_history.simps
    by (rule chain_append [OF stitch_chunk_history_chain])
       (simp only: stitch_chunk_history_last Cons.IH)
qed

lemma stitch_from_history_last:
  "last (st # stitch_from_history similarity W T k prev chunks st)
     = stitch_from similarity W T k prev chunks st"
proof (induction chunks arbitrary: k prev st)
  case Nil
  show ?case by simp
next
  case (Cons cur rest)
  let ?c = "stitch_chunk_history similarity W T k prev cur st"
  let ?r = "stitch_from_history similarity W T (Suc k) cur rest
              (stitch_chunk similarity W T k prev cur st)"
  have "last (st # ?c @ ?r) = last (last (st # ?c) # ?r)"
    by (cases ?r) simp_all
  then show ?case
    by (simp only: stitch_from_history.simps stitch_from.simps stitch_chunk_history_last
          Cons.IH)
qed

lemma stitch_history_chain:
  "sorted_wrt (\<lambda>x y. speakerMap x \<subseteq>\<^sub>m speakerMap y) (stitch_history similarity W T chunks)"
proof (cases chunks)
  case Nil
  then show ?thesis by (simp add: stitch_history_def)
next
  case (Cons first rest)
  have "sorted_wrt (\<lambda>x y. speakerMap x \<subseteq>\<^sub>m speakerMap y)
          (stitcher_init # mint_all_history 0 (map localSpeakerId first) stitcher_init
             @ stitch_from_history similarity W T 1 first rest
                 (mint_all 0 (map localSpeakerId first) stitcher_init))"
    by (rule chain_append [OF mint_all_history_chain])
       (simp only: mint_all_history_last stitch_from_history_chain)
  then show ?thesis by (simp add: stitch_history_def Cons)
qed

lemma stitch_history_last:
  "last (stitch_history similarity W T chunks) = stitch similarity W T chunks"
proof (cases chunks)
  case Nil
  then show ?thesis by (simp add: stitch_history_def stitch_def)
next
  case (Cons first rest)
  let ?m = "mint_all_history 0 (map localSpeakerId first) stitcher_init"
  let ?r = "stitch_from_history similarity W T 1 first rest
              (mint_all 0 (map localSpeakerId first) stitcher_init)"
  have "last (stitcher_init # ?m @ ?r) = last (last (stitcher_init # ?m) # ?r)"
    by (cases ?r) simp_all
  also have "\<dots> = stitch_from similarity W T 1 first rest
                     (mint_all 0 (map localSpeakerId first) stitcher_init)"
    by (simp only: mint_all_history_last stitch_from_history_last)
  finally show ?thesis by (simp add: stitch_history_def stitch_def Cons)
qed

text \<open>
  C4. The \<open>GlobalSpeakerMap\<close> is write-once. Take the history of a stitching job: every
  state of the map, from the empty map through each single step of the stitcher to the
  result of \<open>stitch\<close>. If at some moment \<open>i\<close> of the job the pair (chunk \<open>k\<close>, local
  speaker \<open>l\<close>) is mapped to the global id \<open>G\<close>, then at every later moment \<open>j\<close> a query
  for that pair returns the same \<open>G\<close>: no step of the stitcher, within a chunk or from
  one chunk to the next, remaps a pair.
\<close>

theorem stitcher_never_remaps:
  "last (stitch_history similarity W T chunks) = stitch similarity W T chunks
   \<and> (\<forall>i j. i \<le> j \<and> j < length (stitch_history similarity W T chunks)
           \<and> speakerMap (stitch_history similarity W T chunks ! i) (k, l) = Some G
         \<longrightarrow> speakerMap (stitch_history similarity W T chunks ! j) (k, l) = Some G)"
proof (intro conjI allI impI)
  show "last (stitch_history similarity W T chunks) = stitch similarity W T chunks"
    by (rule stitch_history_last)
next
  fix i j
  let ?h = "stitch_history similarity W T chunks"
  assume a: "i \<le> j \<and> j < length ?h \<and> speakerMap (?h ! i) (k, l) = Some G"
  have "speakerMap (?h ! i) \<subseteq>\<^sub>m speakerMap (?h ! j)"
  proof (cases "i = j")
    case True
    then show ?thesis by simp
  next
    case False
    then have "i < j" using a by simp
    then show ?thesis
      using sorted_wrt_nth_less [OF stitch_history_chain [of similarity W T chunks], of i j] a
      by simp
  qed
  then show "speakerMap (?h ! j) (k, l) = Some G"
    using a by (auto simp: map_le_def dom_def)
qed

theorem stitcher_never_remaps_witness:
  "length (stitch_history example_similarity 30 (3 / 4) [example_chunk0, example_chunk1]) = 9
   \<and> speakerMap (stitch_history example_similarity 30 (3 / 4) [example_chunk0, example_chunk1] ! 2)
        (0, ''S1'') = Some 1
   \<and> speakerMap (stitch_history example_similarity 30 (3 / 4) [example_chunk0, example_chunk1] ! 5)
        (0, ''S1'') = Some 1
   \<and> speakerMap (stitch_history example_similarity 30 (3 / 4) [example_chunk0, example_chunk1] ! 3)
        (1, ''S0'') = Some 1
   \<and> speakerMap (stitch example_similarity 30 (3 / 4) [example_chunk0, example_chunk1])
        (1, ''S0'') = Some 1"
proof -
  let ?h = "stitch_history example_similarity 30 (3 / 4) [example_chunk0, example_chunk1]"
  have h: "?h = map (\<lambda>(m, n). \<lparr>speakerMap = m, nextGlobalId = n\<rparr>)
                  [(Map.empty, 0),
                   ([(0, ''S0'') \<mapsto> 0], 1),
                   ([(0, ''S0'') \<mapsto> 0, (0, ''S1'') \<mapsto> 1], 2),
                   ([(0, ''S0'') \<mapsto> 0, (0, ''S1'') \<mapsto> 1, (1, ''S0'') \<mapsto> 1], 2),
                   ([(0, ''S0'') \<mapsto> 0, (0, ''S1'') \<mapsto> 1, (1, ''S0'') \<mapsto> 1], 2),
                   ([(0, ''S0'') \<mapsto> 0, (0, ''S1'') \<mapsto> 1, (1, ''S0'') \<mapsto> 1], 2),
                   ([(0, ''S0'') \<mapsto> 0, (0, ''S1'') \<mapsto> 1, (1, ''S0'') \<mapsto> 1], 2),
                   ([(0, ''S0'') \<mapsto> 0, (0, ''S1'') \<mapsto> 1, (1, ''S0'') \<mapsto> 1], 2),
                   ([(0, ''S0'') \<mapsto> 0, (0, ''S1'') \<mapsto> 1, (1, ''S0'') \<mapsto> 1,
                     (1, ''S1'') \<mapsto> 2], 3)]"
    by (simp add: stitch_history_def stitch_chunk_history_def stitch_chunk_def candidates_def
          boundary_pairs_def last_window_def first_window_def chunk_end_def example_chunk0_def
          example_chunk1_def example_similarity_def match_pair_def mint_def stitcher_init_def
          numeral_2_eq_2)
  have len: "length ?h = 9"
    by (simp only: h) simp
  have at2: "speakerMap (?h ! 2) (0, ''S1'') = Some 1"
    by (simp only: h) simp
  have at3: "speakerMap (?h ! 3) (1, ''S0'') = Some 1"
    by (simp only: h) simp
  have l: "last ?h = ?h ! 8"
    by (simp only: h) simp
  note first_chunk = stitcher_never_remaps
    [of example_similarity 30 "3 / 4" "[example_chunk0, example_chunk1]" 0 "''S1''" 1]
  note second_chunk = stitcher_never_remaps
    [of example_similarity 30 "3 / 4" "[example_chunk0, example_chunk1]" 1 "''S0''" 1]
  have at5: "speakerMap (?h ! 5) (0, ''S1'') = Some 1"
    using first_chunk [THEN conjunct2, THEN spec, THEN spec, of 2 5] len at2 by simp
  have at8: "speakerMap (?h ! 8) (1, ''S0'') = Some 1"
    using second_chunk [THEN conjunct2, THEN spec, THEN spec, of 3 8] len at3 by simp
  have res: "stitch example_similarity 30 (3 / 4) [example_chunk0, example_chunk1] = ?h ! 8"
    using first_chunk [THEN conjunct1] l by simp
  show ?thesis
    by (simp only: len at2 at3 at5 at8 res simp_thms)
qed

end
